theory Spec2Isabelle
  imports Main "HOL-Library.Word"
begin

section \<open>JavaScript strings\<close>

text \<open>
  A JavaScript string is a sequence of UTF-16 code units. Source literals are ASCII and are
  written with \<open>js\<close>; \<open>length\<close> is the \<open>.length\<close> property.
\<close>

type_synonym js_string = "16 word list"

definition js :: "string \<Rightarrow> js_string" where
  "js s = map of_char s"

text \<open>
  \<open>String.prototype.trim\<close> strips WhiteSpace and LineTerminator code points
  (ECMAScript, sections 12.2 and 12.3) from both ends.
\<close>

definition is_line_terminator :: "16 word \<Rightarrow> bool" where
  "is_line_terminator c = (c \<in> set [0x000A, 0x000D, 0x2028, 0x2029])"

definition is_white_space :: "16 word \<Rightarrow> bool" where
  "is_white_space c = (c \<in> set [0x0009, 0x000B, 0x000C, 0x0020, 0x00A0, 0x1680,
     0x2000, 0x2001, 0x2002, 0x2003, 0x2004, 0x2005, 0x2006, 0x2007, 0x2008, 0x2009, 0x200A,
     0x202F, 0x205F, 0x3000, 0xFEFF])"

definition is_trimmed :: "16 word \<Rightarrow> bool" where
  "is_trimmed c = (is_white_space c \<or> is_line_terminator c)"

definition trim :: "js_string \<Rightarrow> js_string" where
  "trim s = rev (dropWhile is_trimmed (rev (dropWhile is_trimmed s)))"

text \<open>\<open>s.substr(start, len)\<close> for non-negative arguments.\<close>

definition substr :: "js_string \<Rightarrow> nat \<Rightarrow> nat \<Rightarrow> js_string" where
  "substr s start len = take len (drop start s)"

text \<open>\<open>xs.join(sep)\<close> on an array of strings.\<close>

fun join :: "js_string \<Rightarrow> js_string list \<Rightarrow> js_string" where
  "join sep [] = []"
| "join sep [x] = x"
| "join sep (x # y # ys) = x @ sep @ join sep (y # ys)"

section \<open>Values, exceptions and the engine\<close>

text \<open>
  The value of \<open>response.json()\<close> is a JSON value (an object lists its own properties,
  each name once); \<open>undefined\<close> (a missing property) is \<open>None\<close> of
  \<open>'n json option\<close>. Numbers are IEEE doubles in the
  browser: their type is the parameter \<open>'n\<close>, and what the engine computes on them
  (and the message text of its built-in errors) is the record \<open>engine\<close>.
\<close>

datatype 'n json =
    JNull
  | JBool bool
  | JNum 'n
  | JStr js_string
  | JArr "'n json list"
  | JObj "(js_string \<times> 'n json) list"

datatype exn =
    Error js_string
  | TypeError string
  | RangeError string
  | SyntaxError

record 'n engine =
  number_to_string :: "'n \<Rightarrow> js_string"
  number_to_fixed :: "'n \<Rightarrow> nat \<Rightarrow> js_string"
  number_truthy :: "'n \<Rightarrow> bool"
  number_gt_zero :: "'n \<Rightarrow> bool"
  string_gt_zero :: "js_string \<Rightarrow> bool"
  math_round :: "'n \<Rightarrow> int option"
  builtin_message :: "exn \<Rightarrow> js_string"

text \<open>\<open>err.message\<close>: the argument of \<open>new Error(...)\<close>, or the engine's text.\<close>

definition message :: "'n engine \<Rightarrow> exn \<Rightarrow> js_string" where
  "message eng e = (case e of Error m \<Rightarrow> m | _ \<Rightarrow> builtin_message eng e)"

text \<open>ToBoolean.\<close>

definition truthy :: "'n engine \<Rightarrow> 'n json option \<Rightarrow> bool" where
  "truthy eng v = (case v of
       None \<Rightarrow> False
     | Some JNull \<Rightarrow> False
     | Some (JBool b) \<Rightarrow> b
     | Some (JNum n) \<Rightarrow> number_truthy eng n
     | Some (JStr s) \<Rightarrow> s \<noteq> []
     | Some (JArr xs) \<Rightarrow> True
     | Some (JObj kv) \<Rightarrow> True)"

text \<open>
  Member access \<open>v.k\<close> for the property names this program reads on parsed JSON
  (none of them is on a prototype): it throws on \<open>null\<close> and \<open>undefined\<close>, finds
  own properties of an object, and is \<open>undefined\<close> on every other value.
\<close>

definition get_member :: "'n json option \<Rightarrow> string \<Rightarrow> exn + 'n json option" where
  "get_member v k = (case v of
       None \<Rightarrow> Inl (TypeError (''read '' @ k @ '' of undefined''))
     | Some JNull \<Rightarrow> Inl (TypeError (''read '' @ k @ '' of null''))
     | Some (JObj kv) \<Rightarrow> Inr (map_of kv (js k))
     | Some _ \<Rightarrow> Inr None)"

text \<open>ToString, as a template literal applies it to an interpolated value.\<close>

fun to_string :: "'n engine \<Rightarrow> 'n json \<Rightarrow> js_string" where
  "to_string eng JNull = js ''null''"
| "to_string eng (JBool b) = (if b then js ''true'' else js ''false'')"
| "to_string eng (JNum n) = number_to_string eng n"
| "to_string eng (JStr s) = s"
| "to_string eng (JArr xs) =
     join (js '','') (map (\<lambda>x. if x = JNull then [] else to_string eng x) xs)"
| "to_string eng (JObj kv) = js ''[object Object]''"

definition interpolate :: "'n engine \<Rightarrow> 'n json option \<Rightarrow> js_string" where
  "interpolate eng v = (case v of None \<Rightarrow> js ''undefined'' | Some x \<Rightarrow> to_string eng x)"

text \<open>Sequencing of computations that may throw.\<close>

definition and_then :: "exn + 'a \<Rightarrow> ('a \<Rightarrow> exn + 'b) \<Rightarrow> exn + 'b" where
  "and_then r f = (case r of Inl e \<Rightarrow> Inl e | Inr x \<Rightarrow> f x)"

definition seq :: "('s \<Rightarrow> exn option \<times> 's) \<Rightarrow> ('s \<Rightarrow> exn option \<times> 's) \<Rightarrow> 's \<Rightarrow> exn option \<times> 's" where
  "seq f g s = (case f s of (Some e, s') \<Rightarrow> (Some e, s') | (None, s') \<Rightarrow> g s')"

text \<open>\<open>xs.map(f)\<close> where \<open>f\<close> may throw: the first exception ends the traversal.\<close>

fun map_exn :: "('a \<Rightarrow> exn + 'b) \<Rightarrow> 'a list \<Rightarrow> exn + 'b list" where
  "map_exn f [] = Inr []"
| "map_exn f (x # xs) =
     (case f x of Inl e \<Rightarrow> Inl e
      | Inr y \<Rightarrow> (case map_exn f xs of Inl e \<Rightarrow> Inl e | Inr ys \<Rightarrow> Inr (y # ys)))"

text \<open>\<open>a || b\<close>.\<close>

definition or_else :: "'n engine \<Rightarrow> 'n json option \<Rightarrow> 'n json option \<Rightarrow> 'n json option" where
  "or_else eng a b = (if truthy eng a then a else b)"

text \<open>\<open>v?.k\<close>.\<close>

definition get_member_opt :: "'n json option \<Rightarrow> string \<Rightarrow> exn + 'n json option" where
  "get_member_opt v k = (case v of
       None \<Rightarrow> Inr None
     | Some JNull \<Rightarrow> Inr None
     | Some _ \<Rightarrow> get_member v k)"

text \<open>\<open>v.toFixed(d)\<close>: only a number has the method.\<close>

definition call_toFixed :: "'n engine \<Rightarrow> 'n json option \<Rightarrow> nat \<Rightarrow> exn + js_string" where
  "call_toFixed eng v d = (case v of
       Some (JNum n) \<Rightarrow> Inr (number_to_fixed eng n d)
     | None \<Rightarrow> Inl (TypeError ''read toFixed of undefined'')
     | Some JNull \<Rightarrow> Inl (TypeError ''read toFixed of null'')
     | Some _ \<Rightarrow> Inl (TypeError ''toFixed is not a function''))"

text \<open>
  \<open>c.repeat(n)\<close> for a number \<open>n\<close> that \<open>Math.round\<close> produced (\<open>None\<close>: an infinity):
  a negative or infinite count is a RangeError.
\<close>

definition repeat :: "16 word \<Rightarrow> int option \<Rightarrow> exn + js_string" where
  "repeat c n = (case n of
       None \<Rightarrow> Inl (RangeError ''Invalid count value'')
     | Some k \<Rightarrow> if k < 0 then Inl (RangeError ''Invalid count value'')
                 else Inr (replicate (nat k) c))"

section \<open>The page: index.html\<close>

text \<open>
  The elements of index.html that carry an id, with their class attribute. There is no
  element with id \<open>aiResponse\<close>.
\<close>

definition index_html :: "(string \<times> string list) list" where
  "index_html =
    [(''searchInput'', [''flex-1'', ''px-4'', ''py-2'', ''rounded-lg'', ''focus:outline-none'',
        ''focus:ring-2'', ''placeholder-gray-400'']),
     (''searchButton'', [''px-6'', ''py-2'', ''text-white'', ''rounded-lg'', ''hover:bg-blue-700'',
        ''focus:outline-none'', ''focus:ring-2'']),
     (''suggestions'', [''mt-3'', ''space-y-1'', ''hidden'']),
     (''suggestionsList'', [''flex'', ''flex-wrap'', ''gap-2'']),
     (''loading'', [''text-center'', ''py-8'', ''hidden'']),
     (''results'', [''space-y-6'', ''hidden'']),
     (''productResults'', [''grid'', ''gap-4'', ''grid-cols-1'', ''md:grid-cols-2'']),
     (''error'', [''px-4'', ''py-3'', ''rounded-lg'', ''hidden'']),
     (''errorMessage'', [''text-sm''])]"

text \<open>
  What a script can change of an element: its class list, its content (\<open>Static\<close> is the
  markup of index.html; assigning \<open>innerHTML\<close> or \<open>textContent\<close> replaces it) and the
  \<open>value\<close> of an input.
\<close>

datatype content = Static | Html js_string | Text js_string

record element =
  classList :: "string list"
  content :: content
  val :: js_string

type_synonym dom = "string \<Rightarrow> element"

definition initial_dom :: dom where
  "initial_dom i = \<lparr> classList = (case map_of index_html i of None \<Rightarrow> [] | Some cs \<Rightarrow> cs),
                     content = Static, val = [] \<rparr>"

text \<open>An element reference is the element's id; \<open>None\<close> is \<open>null\<close>.\<close>

definition getElementById :: "string \<Rightarrow> string option" where
  "getElementById i = (if i \<in> set (map fst index_html) then Some i else None)"

definition classList_add :: "string option \<Rightarrow> string \<Rightarrow> dom \<Rightarrow> exn option \<times> dom" where
  "classList_add r c d = (case r of
       None \<Rightarrow> (Some (TypeError ''read classList of null''), d)
     | Some i \<Rightarrow> (None, d(i := (d i)\<lparr>classList :=
          (if c \<in> set (classList (d i)) then classList (d i) else classList (d i) @ [c])\<rparr>)))"

definition classList_remove :: "string option \<Rightarrow> string \<Rightarrow> dom \<Rightarrow> exn option \<times> dom" where
  "classList_remove r c d = (case r of
       None \<Rightarrow> (Some (TypeError ''read classList of null''), d)
     | Some i \<Rightarrow> (None, d(i := (d i)\<lparr>classList := removeAll c (classList (d i))\<rparr>)))"

definition set_innerHTML :: "string option \<Rightarrow> js_string \<Rightarrow> dom \<Rightarrow> exn option \<times> dom" where
  "set_innerHTML r h d = (case r of
       None \<Rightarrow> (Some (TypeError ''set innerHTML of null''), d)
     | Some i \<Rightarrow> (None, d(i := (d i)\<lparr>content := Html h\<rparr>)))"

definition set_textContent :: "string option \<Rightarrow> js_string \<Rightarrow> dom \<Rightarrow> exn option \<times> dom" where
  "set_textContent r t d = (case r of
       None \<Rightarrow> (Some (TypeError ''set textContent of null''), d)
     | Some i \<Rightarrow> (None, d(i := (d i)\<lparr>content := Text t\<rparr>)))"

definition get_value :: "string option \<Rightarrow> dom \<Rightarrow> exn + js_string" where
  "get_value r d = (case r of
       None \<Rightarrow> Inl (TypeError ''read value of null'')
     | Some i \<Rightarrow> Inr (val (d i)))"

definition set_value :: "string option \<Rightarrow> js_string \<Rightarrow> dom \<Rightarrow> exn option \<times> dom" where
  "set_value r v d = (case r of
       None \<Rightarrow> (Some (TypeError ''set value of null''), d)
     | Some i \<Rightarrow> (None, d(i := (d i)\<lparr>val := v\<rparr>)))"

text \<open>An element is displayed when its class list does not hold \<open>hidden\<close>.\<close>

definition shown :: "string \<Rightarrow> dom \<Rightarrow> bool" where
  "shown i d = (''hidden'' \<notin> set (classList (d i)))"

section \<open>script.js: constants and DOM elements\<close>

definition DEBOUNCE_DELAY :: nat where
  "DEBOUNCE_DELAY = 300"

definition searchInput :: "string option" where
  "searchInput = getElementById ''searchInput''"

definition searchButton :: "string option" where
  "searchButton = getElementById ''searchButton''"

definition suggestions :: "string option" where
  "suggestions = getElementById ''suggestions''"

definition suggestionsList :: "string option" where
  "suggestionsList = getElementById ''suggestionsList''"

definition loading :: "string option" where
  "loading = getElementById ''loading''"

definition results :: "string option" where
  "results = getElementById ''results''"

definition aiResponse :: "string option" where
  "aiResponse = getElementById ''aiResponse''"

definition productResults :: "string option" where
  "productResults = getElementById ''productResults''"

definition error :: "string option" where
  "error = getElementById ''error''"

definition errorMessage :: "string option" where
  "errorMessage = getElementById ''errorMessage''"

section \<open>script.js: utility functions\<close>

definition showLoading :: "dom \<Rightarrow> exn option \<times> dom" where
  "showLoading = seq (classList_remove loading ''hidden'') (classList_add results ''hidden'')"

definition hideLoading :: "dom \<Rightarrow> exn option \<times> dom" where
  "hideLoading = classList_add loading ''hidden''"

definition showError :: "js_string \<Rightarrow> dom \<Rightarrow> exn option \<times> dom" where
  "showError msg = seq (classList_remove error ''hidden'') (set_textContent errorMessage msg)"

definition hideError :: "dom \<Rightarrow> exn option \<times> dom" where
  "hideError = classList_add error ''hidden''"

definition hideSuggestions :: "dom \<Rightarrow> exn option \<times> dom" where
  "hideSuggestions = classList_add suggestions ''hidden''"

text \<open>
  \<open>localStorage\<close> maps keys to strings; \<open>getItem\<close> of a missing key is \<open>null\<close>.
  \<open>getUserId rnd\<close> is the function where \<open>rnd\<close> is the string
  \<open>Math.random().toString(36)\<close> (read only when an identifier is generated).
  \<open>!userId\<close> holds for \<open>null\<close> and for the empty string.
\<close>

type_synonym storage = "js_string \<rightharpoonup> js_string"

definition getUserId :: "js_string \<Rightarrow> storage \<Rightarrow> js_string \<times> storage" where
  "getUserId rnd ls =
     (let generated = js ''user_'' @ substr rnd 2 9
      in case ls (js ''userId'') of
           None \<Rightarrow> (generated, ls(js ''userId'' \<mapsto> generated))
         | Some userId \<Rightarrow>
             if userId = [] then (generated, ls(js ''userId'' \<mapsto> generated))
             else (userId, ls))"

section \<open>script.js: the template literals\<close>

text \<open>
  The fixed text of the template literals, cut at the interpolations: \<open>card_0\<close> to
  \<open>card_8\<close> are the pieces of the template of \<open>createProductCard\<close> in order, with
  \<open>expl_0\<close> and \<open>expl_1\<close> the pieces of the nested template for the explanation;
  \<open>tag_0\<close> to \<open>tag_2\<close> are those of \<open>createSuggestionTag\<close>.
\<close>

definition placeholderImage :: js_string where
  \<open>placeholderImage = js ''data:image/svg+xml;base64,PHN2ZyB3aWR0aD0iMjAwIiBoZWlnaHQ9IjIwMCIgeG1sbnM9Imh0dHA6Ly93d3cudzMub3JnLzIwMDAvc3ZnIj48cmVjdCB3aWR0aD0iMjAwIiBoZWlnaHQ9IjIwMCIgZmlsbD0iIzRBNTU2OCIvPjxwYXRoIGQ9Ik04NSA2NUgxMTVWMTM1SDg1VjY1WiIgZmlsbD0iI0EwQUVDMCIvPjwvc3ZnPg==''\<close>

definition card_0 :: js_string where
  \<open>card_0 = js ''\<newline>        <div class="product-card p-4 rounded-lg shadow-md hover:shadow-lg transition-all">\<newline>            <div class="aspect-w-16 aspect-h-9 mb-4">\<newline>                <img src="''\<close>

definition card_1 :: js_string where
  \<open>card_1 = js ''"\<newline>                     alt="''\<close>

definition card_2 :: js_string where
  \<open>card_2 = js ''"\<newline>                     class="object-cover rounded-md w-full h-48"\<newline>                     onerror="this.onerror=null; this.src='' @ [0x27]\<close>

definition card_3 :: js_string where
  \<open>card_3 = js ''\';">\<newline>            </div>\<newline>            <h3 class="font-semibold text-lg mb-2 text-gray-100">''\<close>

definition card_4 :: js_string where
  \<open>card_4 = js ''</h3>\<newline>            <p class="text-gray-400 text-sm mb-2">''\<close>

definition card_5 :: js_string where
  \<open>card_5 = js ''</p>\<newline>            <div class="flex justify-between items-center mb-2">\<newline>                <span class="price-tag">''\<close>

definition card_6 :: js_string where
  \<open>card_6 = js ''</span>\<newline>                <span class="text-sm text-gray-500">''\<close>

definition card_7 :: js_string where
  \<open>card_7 = js ''</span>\<newline>            </div>\<newline>            ''\<close>

definition expl_0 :: js_string where
  \<open>expl_0 = js ''\<newline>                <div class="mt-2 text-sm text-blue-400">\<newline>                    <svg class="inline w-4 h-4 mr-1" fill="currentColor" viewBox="0 0 20 20">\<newline>                        <path d="M11 3a1 1 0 10-2 0v1a1 1 0 102 0V3zM15.657 5.757a1 1 0 00-1.414-1.414l-.707.707a1 1 0 001.414 1.414l.707-.707zM18 10a1 1 0 01-1 1h-1a1 1 0 110-2h1a1 1 0 011 1zM5.05 6.464A1 1 0 106.464 5.05l-.707-.707a1 1 0 00-1.414 1.414l.707.707zM5 10a1 1 0 01-1 1H3a1 1 0 110-2h1a1 1 0 011 1zM8 16v-1h4v1a2 2 0 11-4 0zM12 14c.015-.34.208-.646.477-.859a4 4 0 10-4.954 0c.27.213.462.519.477.859h4z"/>\<newline>                    </svg>\<newline>                    ''\<close>

definition expl_1 :: js_string where
  \<open>expl_1 = js ''\<newline>                </div>\<newline>            ''\<close>

definition card_8 :: js_string where
  \<open>card_8 = js ''\<newline>        </div>\<newline>    ''\<close>

definition tag_0 :: js_string where
  \<open>tag_0 = js ''\<newline>        <button class="suggestion-tag" onclick="applySuggestion('' @ [0x27]\<close>

definition tag_1 :: js_string where
  \<open>tag_1 = js ''\')">\<newline>            ''\<close>

definition tag_2 :: js_string where
  \<open>tag_2 = js ''\<newline>        </button>\<newline>    ''\<close>

section \<open>script.js: display functions\<close>

text \<open>
  \<open>s.replace(/D(.*?)D/g, open + '$1' + close)\<close> for a literal delimiter \<open>D\<close>:
  \<open>find_close\<close> is the lazy group, which takes the fewest characters, none of them a
  line terminator, up to the next delimiter; \<open>replace_delimited\<close> scans from the left
  and resumes after each match.
\<close>

fun find_close :: "js_string \<Rightarrow> js_string \<Rightarrow> (js_string \<times> js_string) option" where
  "find_close d [] = None"
| "find_close d (c # cs) =
     (if take (length d) (c # cs) = d then Some ([], drop (length d) (c # cs))
      else if is_line_terminator c then None
      else (case find_close d cs of None \<Rightarrow> None | Some (m, r) \<Rightarrow> Some (c # m, r)))"

function (sequential) replace_delimited ::
  "js_string \<Rightarrow> js_string \<Rightarrow> js_string \<Rightarrow> js_string \<Rightarrow> js_string" where
  "replace_delimited [] opn cls s = s"
| "replace_delimited d opn cls [] = []"
| "replace_delimited d opn cls (c # cs) =
     (if take (length d) (c # cs) = d then
        (case find_close d (drop (length d) (c # cs)) of
           Some (m, r) \<Rightarrow> opn @ m @ cls @ replace_delimited d opn cls r
         | None \<Rightarrow> c # replace_delimited d opn cls cs)
      else c # replace_delimited d opn cls cs)"
  by pat_completeness auto
termination
proof (relation "measure (\<lambda>(d, opn, cls, s). length s)")
  fix v :: "16 word" and va opn cls :: js_string and c cs x2 x y
  assume found: "find_close (v # va) (drop (length (v # va)) (c # cs)) = Some x2"
    and x2: "(x, y) = x2"
  have shorter: "find_close d s = Some (m, r) \<Longrightarrow> length r \<le> length s"
    for d s m and r :: js_string
    by (induction s arbitrary: m r) (auto split: if_splits option.splits)
  from found x2 have "length y \<le> length (drop (length (v # va)) (c # cs))"
    using shorter [of "v # va" "drop (length (v # va)) (c # cs)" x y] by simp
  then show "((v # va, opn, cls, y), v # va, opn, cls, c # cs)
      \<in> measure (\<lambda>(d, opn, cls, s). length s)"
    by simp
qed simp_all

text \<open>\<open>s.replace(/\n/g, '<br>')\<close>.\<close>

definition replace_newlines :: "js_string \<Rightarrow> js_string" where
  "replace_newlines s = concat (map (\<lambda>c. if c = 0x000A then js ''<br>'' else [c]) s)"

definition formatAIResponse :: "'n json option \<Rightarrow> exn + js_string" where
  "formatAIResponse response = (case response of
       Some (JStr s) \<Rightarrow>
         Inr (replace_newlines
               (replace_delimited (js ''*'') (js ''<em>'') (js ''</em>'')
                 (replace_delimited (js ''**'') (js ''<strong>'') (js ''</strong>'') s)))
     | None \<Rightarrow> Inl (TypeError ''read replace of undefined'')
     | Some JNull \<Rightarrow> Inl (TypeError ''read replace of null'')
     | Some _ \<Rightarrow> Inl (TypeError ''response.replace is not a function''))"

text \<open>
  \<open>createProductCard(result)\<close>: \<open>product\<close> and \<open>explanation\<close> are destructured from
  \<open>result\<close> (the two scores are destructured and never used); the interpolations are
  evaluated from left to right.
\<close>

definition createProductCard :: "'n engine \<Rightarrow> 'n json option \<Rightarrow> exn + js_string" where
  "createProductCard eng result =
     and_then (get_member result ''product'') (\<lambda>product.
     and_then (get_member result ''explanation'') (\<lambda>explanation.
     and_then (get_member product ''attributes'') (\<lambda>attributes.
     and_then (get_member_opt attributes ''image_url'') (\<lambda>image_url.
     and_then (get_member product ''name'') (\<lambda>name.
     and_then (get_member product ''description'') (\<lambda>description.
     and_then (get_member product ''price'') (\<lambda>price.
     and_then (call_toFixed eng price 2) (\<lambda>price_text.
     and_then (get_member product ''category'') (\<lambda>category.
       Inr (card_0 @ interpolate eng (or_else eng image_url (Some (JStr placeholderImage)))
          @ card_1 @ interpolate eng name
          @ card_2 @ placeholderImage
          @ card_3 @ interpolate eng name
          @ card_4 @ interpolate eng description
          @ card_5 @ price_text
          @ card_6 @ interpolate eng category
          @ card_7 @ (if truthy eng explanation
                      then expl_0 @ interpolate eng explanation @ expl_1 else [])
          @ card_8))))))))))"

definition createSuggestionTag :: "'n engine \<Rightarrow> 'n json option \<Rightarrow> js_string" where
  "createSuggestionTag eng suggestion =
     tag_0 @ interpolate eng suggestion @ tag_1 @ interpolate eng suggestion @ tag_2"

text \<open>
  \<open>displayResults(data)\<close>. In the assignment to \<open>aiResponse.innerHTML\<close> the right-hand
  side is evaluated first and the store into the element reference follows.
\<close>

definition products_markup :: "'n engine \<Rightarrow> 'n json \<Rightarrow> exn + js_string" where
  "products_markup eng data =
     and_then (get_member (Some data) ''products'') (\<lambda>products.
       case or_else eng products (Some (JArr [])) of
         Some (JArr ps) \<Rightarrow>
           and_then (map_exn (\<lambda>product. createProductCard eng
                        (Some (JObj [(js ''product'', product)]))) ps)
             (\<lambda>cards. Inr (concat cards))
       | _ \<Rightarrow> Inl (TypeError ''map is not a function''))"

definition displayResults :: "'n engine \<Rightarrow> 'n json \<Rightarrow> dom \<Rightarrow> exn option \<times> dom" where
  "displayResults eng data =
     seq (classList_remove results ''hidden'')
    (seq (classList_add results ''animate-fade-in'')
    (seq (\<lambda>d. case and_then (get_member (Some data) ''ai_response'') (\<lambda>ai_response.
                      formatAIResponse
                        (or_else eng ai_response (Some (JStr (js ''No response available.''))))) of
                 Inl e \<Rightarrow> (Some e, d)
               | Inr h \<Rightarrow> set_innerHTML aiResponse h d)
         (\<lambda>d. case products_markup eng data of
                 Inl e \<Rightarrow> (Some e, d)
               | Inr h \<Rightarrow> set_innerHTML productResults h d)))"

text \<open>
  \<open>displaySuggestions(suggestionsList)\<close>. The parameter shadows the module-level element
  of the same name, so both \<open>.length\<close> and the assignment to \<open>.innerHTML\<close> are on the
  argument. The result holds the properties the call has written on its argument.
  \<open>length_falsy\<close> is \<open>!v.length\<close> for a value other than \<open>null\<close>.
\<close>

definition length_falsy :: "'n engine \<Rightarrow> 'n json \<Rightarrow> bool" where
  "length_falsy eng v = (case v of
       JArr xs \<Rightarrow> xs = []
     | JStr s \<Rightarrow> s = []
     | JObj kv \<Rightarrow> \<not> truthy eng (map_of kv (js ''length''))
     | _ \<Rightarrow> True)"

definition displaySuggestions ::
  "'n engine \<Rightarrow> 'n json \<Rightarrow> dom \<Rightarrow> exn option \<times> (string \<times> js_string) list \<times> dom" where
  "displaySuggestions eng suggestionsList_arg d =
     (if suggestionsList_arg = JNull then (Some (TypeError ''read length of null''), [], d)
      else if length_falsy eng suggestionsList_arg then
        (case hideSuggestions d of (r, d') \<Rightarrow> (r, [], d'))
      else
        (case classList_remove suggestions ''hidden'' d of
           (Some e, d') \<Rightarrow> (Some e, [], d')
         | (None, d') \<Rightarrow>
             (case suggestionsList_arg of
                JArr xs \<Rightarrow>
                  (None,
                   [(''innerHTML'', concat (map (\<lambda>suggestion. createSuggestionTag eng (Some suggestion)) xs))],
                   d')
              | _ \<Rightarrow> (Some (TypeError ''map is not a function''), [], d'))))"

section \<open>The second script: performSearch\<close>

text \<open>The texts of the example searches of index.html, quotes included.\<close>

definition example_searches :: "js_string list" where
  \<open>example_searches =
    [js ''"gaming laptop under $2000"'',
     js ''"high-end laptops over $2500"'',
     js ''"laptops with longest battery life"'',
     js ''"fastest gaming laptops for video editing"'',
     js ''"best laptop for graphic design"'',
     js ''"lightweight business laptop with good webcam"'',
     js ''"compare MacBook Pro M2 vs Dell XPS 15"'',
     js ''"ASUS ROG vs Razer Blade gaming laptops"'',
     js ''"gaming laptop with RTX 4080 and 32GB RAM"'',
     js ''"ultralight laptop under 3 pounds with good battery"'',
     js ''"latest MacBook models compared"'',
     js ''"top rated Windows laptops 2024"'']\<close>

text \<open>\<open>searchText.replace(/['"]/g, '')\<close>.\<close>

definition strip_quotes :: "js_string \<Rightarrow> js_string" where
  "strip_quotes s = filter (\<lambda>c. c \<noteq> 0x0027 \<and> c \<noteq> 0x0022) s"

text \<open>\<open>v > 0\<close> (the operand is converted with ToNumber) and \<open>v.length > 0\<close>.\<close>

definition js_gt_zero :: "'n engine \<Rightarrow> 'n json option \<Rightarrow> bool" where
  "js_gt_zero eng v = (case v of
       None \<Rightarrow> False
     | Some JNull \<Rightarrow> False
     | Some (JBool b) \<Rightarrow> b
     | Some (JNum n) \<Rightarrow> number_gt_zero eng n
     | Some (JStr s) \<Rightarrow> string_gt_zero eng s
     | Some (JArr xs) \<Rightarrow> string_gt_zero eng (to_string eng (JArr xs))
     | Some (JObj kv) \<Rightarrow> False)"

definition length_gt_zero :: "'n engine \<Rightarrow> 'n json option \<Rightarrow> bool" where
  "length_gt_zero eng v = (case v of
       Some (JArr xs) \<Rightarrow> xs \<noteq> []
     | Some (JStr s) \<Rightarrow> s \<noteq> []
     | Some (JObj kv) \<Rightarrow> js_gt_zero eng (map_of kv (js ''length''))
     | _ \<Rightarrow> False)"

text \<open>
  The pieces of the template literal in \<open>performSearch\<close>, in order: \<open>item_0\<close> to
  \<open>item_5\<close>, with \<open>rating_0\<close> to \<open>rating_2\<close> and \<open>reviews_0\<close>, \<open>reviews_1\<close>
  those of the nested templates for the rating and the number of reviews.
\<close>

definition item_0 :: js_string where
  \<open>item_0 = js ''\<newline>                    <div class="product-card p-4 border rounded-lg hover:shadow-lg transition-shadow">\<newline>                        <div class="flex justify-between items-start mb-3">\<newline>                            <h3 class="font-semibold text-lg text-gray-900">''\<close>

definition item_1 :: js_string where
  \<open>item_1 = js ''</h3>\<newline>                            <span class="text-lg font-bold text-blue-600">\<newline>                                ''\<close>

definition item_2 :: js_string where
  \<open>item_2 = js ''\<newline>                            </span>\<newline>                        </div>\<newline>\<newline>                        <div class="mt-2">\<newline>                            <p class="text-sm text-gray-600">''\<close>

definition item_3 :: js_string where
  \<open>item_3 = js ''</p>\<newline>                        </div>\<newline>\<newline>                        <div class="mt-3 flex items-center">\<newline>                            ''\<close>

definition rating_0 :: js_string where
  \<open>rating_0 = js ''\<newline>                                <span class="flex items-center text-yellow-500">\<newline>                                    ''\<close>

definition rating_1 :: js_string where
  \<open>rating_1 = js ''\<newline>                                    <span class="ml-1 text-gray-600">(''\<close>

definition rating_2 :: js_string where
  \<open>rating_2 = js '')</span>\<newline>                                </span>\<newline>                            ''\<close>

definition item_4 :: js_string where
  \<open>item_4 = js ''\<newline>                            ''\<close>

definition reviews_0 :: js_string where
  \<open>reviews_0 = js ''\<newline>                                <span class="ml-2 text-gray-500">''\<close>

definition reviews_1 :: js_string where
  \<open>reviews_1 = js '' reviews</span>\<newline>                            ''\<close>

definition item_5 :: js_string where
  \<open>item_5 = js ''\<newline>                        </div>\<newline>                    </div>\<newline>                ''\<close>

text \<open>The arrow function that performSearch maps over \<open>data.products\<close>.\<close>

definition rating_markup :: "'n engine \<Rightarrow> 'n json option \<Rightarrow> exn + js_string" where
  "rating_markup eng rating = (case rating of
       Some (JNum r) \<Rightarrow>
         and_then (repeat 0x2605 (math_round eng r)) (\<lambda>stars.
         and_then (repeat 0x2606 (map_option (\<lambda>k. 5 - k) (math_round eng r))) (\<lambda>blanks.
           Inr (rating_0 @ stars @ blanks @ rating_1 @ number_to_fixed eng r 1 @ rating_2)))
     | _ \<Rightarrow> Inr [])"

definition product_markup :: "'n engine \<Rightarrow> 'n json \<Rightarrow> exn + js_string" where
  "product_markup eng product =
     and_then (get_member (Some product) ''name'') (\<lambda>name.
     and_then (get_member (Some product) ''price'') (\<lambda>price.
     and_then (get_member (Some product) ''description'') (\<lambda>description.
     and_then (get_member (Some product) ''rating'') (\<lambda>rating.
     and_then (rating_markup eng rating) (\<lambda>rating_text.
     and_then (get_member (Some product) ''reviews_count'') (\<lambda>reviews_count.
       Inr (item_0 @ interpolate eng (or_else eng name (Some (JStr (js ''Unnamed Product''))))
          @ item_1 @ (case price of
                        Some (JNum p) \<Rightarrow> js ''$'' @ number_to_fixed eng p 2
                      | _ \<Rightarrow> js ''Price not available'')
          @ item_2 @ interpolate eng
                       (or_else eng description (Some (JStr (js ''No description available''))))
          @ item_3 @ rating_text
          @ item_4 @ (if truthy eng reviews_count
                      then reviews_0 @ interpolate eng reviews_count @ reviews_1 else [])
          @ item_5)))))))"

definition no_products_found :: js_string where
  \<open>no_products_found = js ''<p class="text-gray-500">No products found.</p>''\<close>

section \<open>Requests and the event loop\<close>

text \<open>
  A request is what \<open>fetch\<close> was given; \<open>body\<close> is the object passed to
  \<open>JSON.stringify\<close>, as its properties in order. \<open>origin\<close> names the code that awaits
  the response. A fetch settles with \<open>Rejected\<close> (no response) or with a response:
  \<open>response.ok\<close>, \<open>response.statusText\<close> and what \<open>response.json()\<close> gives
  (\<open>None\<close>: the body is not JSON and \<open>json()\<close> throws a SyntaxError).
\<close>

datatype origin = HandleSearch | Suggestion | PerformSearch

record 'n request =
  url :: string
  http_method :: string
  content_type :: string
  body :: "(string \<times> 'n json) list"

datatype 'n outcome = Rejected | Response bool js_string "'n json option"

text \<open>
  The state: the page, \<open>localStorage\<close>, the module variables \<open>currentQuery\<close> and
  \<open>searchTimeout\<close>, the pending timers (id, delay, the \<open>query\<close> of the closure), and the
  requests in flight. Timer ids are positive.
\<close>

record 'n ui_state =
  page :: dom
  localStorage :: storage
  currentQuery :: js_string
  searchTimeout :: "nat option"
  timers :: "(nat \<times> nat \<times> js_string) list"
  timer_counter :: nat
  inflight :: "(nat \<times> origin \<times> 'n request) list"
  request_counter :: nat

definition initial_state :: "'n ui_state" where
  "initial_state = \<lparr> page = initial_dom, localStorage = Map.empty, currentQuery = [],
     searchTimeout = None, timers = [], timer_counter = 0, inflight = [],
     request_counter = 0 \<rparr>"

definition API_BASE_URL :: string where
  "API_BASE_URL = ''/api''"

definition fetch :: "origin \<Rightarrow> string \<Rightarrow> (string \<times> 'n json) list \<Rightarrow> 'n ui_state \<Rightarrow> 'n ui_state" where
  "fetch who u b s =
     s\<lparr> inflight := inflight s @
           [(Suc (request_counter s), who,
             \<lparr> url = u, http_method = ''POST'', content_type = ''application/json'', body = b \<rparr>)],
        request_counter := Suc (request_counter s) \<rparr>"

definition clearTimeout :: "nat \<Rightarrow> 'n ui_state \<Rightarrow> 'n ui_state" where
  "clearTimeout t s = s\<lparr> timers := filter (\<lambda>(i, delay, q). i \<noteq> t) (timers s) \<rparr>"

text \<open>\<open>searchTimeout = setTimeout(callback, delay)\<close>, the callback holding \<open>query\<close>.\<close>

definition setTimeout :: "js_string \<Rightarrow> nat \<Rightarrow> 'n ui_state \<Rightarrow> 'n ui_state" where
  "setTimeout query delay s =
     s\<lparr> searchTimeout := Some (Suc (timer_counter s)),
        timers := timers s @ [(Suc (timer_counter s), delay, query)],
        timer_counter := Suc (timer_counter s) \<rparr>"

section \<open>script.js: the handlers\<close>

text \<open>
  \<open>handleSearch()\<close> up to its first \<open>await\<close>. \<open>rnd\<close> is
  \<open>Math.random().toString(36)\<close>, for \<open>getUserId\<close>. \<open>!query\<close> holds for the empty
  string. An exception before the \<open>try\<close> block ends the call.
\<close>

definition handleSearch :: "js_string \<Rightarrow> 'n ui_state \<Rightarrow> 'n ui_state" where
  "handleSearch rnd s = (case get_value searchInput (page s) of
       Inl e \<Rightarrow> s
     | Inr v \<Rightarrow>
         (let query = trim v in
          if query = [] then s
          else (case seq showLoading hideError (page s) of
                  (Some e, d) \<Rightarrow> s\<lparr> page := d, currentQuery := query \<rparr>
                | (None, d) \<Rightarrow>
                    (case getUserId rnd (localStorage s) of (user_id, ls) \<Rightarrow>
                       fetch HandleSearch (API_BASE_URL @ ''/search'')
                         [(''query'', JStr query),
                          (''user_id'', JStr user_id),
                          (''filters'', JObj []),
                          (''context'', JObj [])]
                         (s\<lparr> page := d, currentQuery := query, localStorage := ls \<rparr>)))))"

text \<open>
  The rest of \<open>handleSearch\<close>, run when its fetch settles: the \<open>try\<close> block from the
  \<open>await\<close> on, the \<open>catch\<close> and the \<open>finally\<close>. The result holds the exception
  that leaves the function, if any.
\<close>

definition handleSearch_try :: "'n engine \<Rightarrow> 'n outcome \<Rightarrow> dom \<Rightarrow> exn option \<times> dom" where
  "handleSearch_try eng out d = (case out of
       Rejected \<Rightarrow> (Some (TypeError ''Failed to fetch''), d)
     | Response ok statusText parsed \<Rightarrow>
         if \<not> ok then (Some (Error (js ''Search request failed'')), d)
         else (case parsed of
                 None \<Rightarrow> (Some SyntaxError, d)
               | Some data \<Rightarrow> displayResults eng data d))"

definition catch_finally ::
  "(exn \<Rightarrow> dom \<Rightarrow> exn option \<times> dom) \<Rightarrow> (dom \<Rightarrow> exn option \<times> dom) \<Rightarrow>
   exn option \<times> dom \<Rightarrow> exn option \<times> dom" where
  "catch_finally handler finalizer r = (case r of (thrown, d) \<Rightarrow>
     (case (case thrown of Some err \<Rightarrow> handler err d | None \<Rightarrow> (None, d)) of (thrown', d') \<Rightarrow>
        (case finalizer d' of
           (Some e, d'') \<Rightarrow> (Some e, d'')
         | (None, d'') \<Rightarrow> (thrown', d''))))"

definition handleSearch_resume :: "'n engine \<Rightarrow> 'n outcome \<Rightarrow> dom \<Rightarrow> exn option \<times> dom" where
  "handleSearch_resume eng out d =
     catch_finally (\<lambda>err. showError (message eng err)) hideLoading (handleSearch_try eng out d)"

text \<open>\<open>handleSearchInput(e)\<close>, where \<open>target_value\<close> is \<open>e.target.value\<close>.\<close>

definition handleSearchInput :: "js_string \<Rightarrow> 'n ui_state \<Rightarrow> 'n ui_state" where
  "handleSearchInput target_value s =
     (let query = trim target_value;
          s1 = (case searchTimeout s of
                  None \<Rightarrow> s
                | Some t \<Rightarrow> if t \<noteq> 0 then clearTimeout t s else s)
      in if length query < 2 then s1\<lparr> page := snd (hideSuggestions (page s1)) \<rparr>
         else setTimeout query DEBOUNCE_DELAY s1)"

text \<open>The timer callback up to its \<open>await\<close>, and its rest (the \<open>catch\<close> only logs).\<close>

definition suggestion_callback :: "js_string \<Rightarrow> 'n ui_state \<Rightarrow> 'n ui_state" where
  "suggestion_callback query s =
     fetch Suggestion (API_BASE_URL @ ''/search'')
       [(''query'', JStr query), (''generate_suggestions'', JBool True)] s"

definition suggestion_resume :: "'n engine \<Rightarrow> 'n outcome \<Rightarrow> dom \<Rightarrow> exn option \<times> dom" where
  "suggestion_resume eng out d = (case out of
       Rejected \<Rightarrow> (None, d)
     | Response ok statusText parsed \<Rightarrow>
         if \<not> ok then (None, d)
         else (case parsed of
                 None \<Rightarrow> (None, d)
               | Some data \<Rightarrow>
                   (case get_member (Some data) ''suggestions'' of
                      Inl e \<Rightarrow> (None, d)
                    | Inr sugg \<Rightarrow>
                        (case or_else eng sugg (Some (JArr [])) of
                           None \<Rightarrow> (None, d)
                         | Some arg \<Rightarrow>
                             (case displaySuggestions eng arg d of (thrown, props, d') \<Rightarrow>
                                (None, d'))))))"

definition applySuggestion :: "js_string \<Rightarrow> js_string \<Rightarrow> 'n ui_state \<Rightarrow> 'n ui_state" where
  "applySuggestion suggestion rnd s = (case set_value searchInput suggestion (page s) of
       (Some e, d) \<Rightarrow> s\<lparr> page := d \<rparr>
     | (None, d) \<Rightarrow> handleSearch rnd (s\<lparr> page := d \<rparr>))"

section \<open>The second script: the handlers\<close>

definition performSearch_handler :: "'n engine \<Rightarrow> exn \<Rightarrow> dom \<Rightarrow> exn option \<times> dom" where
  "performSearch_handler eng err =
     seq (classList_remove error ''hidden'') (set_textContent errorMessage (message eng err))"

definition performSearch_finally :: "dom \<Rightarrow> exn option \<times> dom" where
  "performSearch_finally = classList_add loading ''hidden''"

text \<open>\<open>performSearch(query)\<close> up to its \<open>await\<close>; the request holds \<open>query\<close> as given.\<close>

definition performSearch :: "'n engine \<Rightarrow> js_string \<Rightarrow> 'n ui_state \<Rightarrow> 'n ui_state" where
  "performSearch eng query s =
     (if trim query = [] then s
      else (case seq (classList_remove loading ''hidden'')
                 (seq (classList_add results ''hidden'') (classList_add error ''hidden'')) (page s) of
              (Some e, d) \<Rightarrow>
                s\<lparr> page := snd (catch_finally (performSearch_handler eng) performSearch_finally
                                  (Some e, d)) \<rparr>
            | (None, d) \<Rightarrow>
                fetch PerformSearch ''/api/search'' [(''query'', JStr query)] (s\<lparr> page := d \<rparr>)))"

definition performSearch_try :: "'n engine \<Rightarrow> 'n outcome \<Rightarrow> dom \<Rightarrow> exn option \<times> dom" where
  "performSearch_try eng out d = (case out of
       Rejected \<Rightarrow> (Some (TypeError ''Failed to fetch''), d)
     | Response ok statusText parsed \<Rightarrow>
         if \<not> ok then (Some (Error (js ''Search request failed: '' @ statusText)), d)
         else (case parsed of
                 None \<Rightarrow> (Some SyntaxError, d)
               | Some data \<Rightarrow>
                   (case get_member (Some data) ''products'' of
                      Inl e \<Rightarrow> (Some e, d)
                    | Inr products \<Rightarrow>
                        seq (\<lambda>d.
                               if truthy eng products \<and> length_gt_zero eng products then
                                 (case products of
                                    Some (JArr ps) \<Rightarrow>
                                      (case map_exn (product_markup eng) ps of
                                         Inl e \<Rightarrow> (Some e, d)
                                       | Inr items \<Rightarrow> set_innerHTML productResults (concat items) d)
                                  | _ \<Rightarrow> (Some (TypeError ''map is not a function''), d))
                               else set_innerHTML productResults no_products_found d)
                            (classList_remove results ''hidden'') d)))"

definition performSearch_resume :: "'n engine \<Rightarrow> 'n outcome \<Rightarrow> dom \<Rightarrow> exn option \<times> dom" where
  "performSearch_resume eng out d =
     catch_finally (performSearch_handler eng) performSearch_finally (performSearch_try eng out d)"

text \<open>The click and Enter handlers of the second script, and the click on an example.\<close>

definition performSearch_from_input :: "'n engine \<Rightarrow> 'n ui_state \<Rightarrow> 'n ui_state" where
  "performSearch_from_input eng s = (case get_value searchInput (page s) of
       Inl e \<Rightarrow> s
     | Inr v \<Rightarrow> performSearch eng (trim v) s)"

definition example_click :: "'n engine \<Rightarrow> nat \<Rightarrow> 'n ui_state \<Rightarrow> 'n ui_state" where
  "example_click eng k s =
     (if k < length example_searches then
        (let cleanQuery = strip_quotes (example_searches ! k) in
         case set_value searchInput cleanQuery (page s) of
           (Some e, d) \<Rightarrow> s\<lparr> page := d \<rparr>
         | (None, d) \<Rightarrow> performSearch eng cleanQuery (s\<lparr> page := d \<rparr>))
      else s)"

section \<open>The event loop\<close>

text \<open>
  What can happen to the page, one event at a time: the user edits the search field to a
  value (the \<open>input\<close> event), clicks the search button or presses Enter (each script has
  its own listener), clicks a suggestion tag or an example; a pending timer fires; a request
  in flight settles. An event for a timer or a request that is not pending changes nothing.
\<close>

datatype 'n event =
    Input js_string
  | SearchClick js_string
  | EnterKey js_string
  | SuggestionClick js_string js_string
  | TimerFires nat
  | FetchSettles nat "'n outcome"
  | SearchClick2
  | EnterKey2
  | ExampleClick nat

definition resume :: "'n engine \<Rightarrow> origin \<Rightarrow> 'n outcome \<Rightarrow> dom \<Rightarrow> exn option \<times> dom" where
  "resume eng who out = (case who of
       HandleSearch \<Rightarrow> handleSearch_resume eng out
     | Suggestion \<Rightarrow> suggestion_resume eng out
     | PerformSearch \<Rightarrow> performSearch_resume eng out)"

definition step :: "'n engine \<Rightarrow> 'n event \<Rightarrow> 'n ui_state \<Rightarrow> 'n ui_state" where
  "step eng ev s = (case ev of
       Input v \<Rightarrow>
         handleSearchInput v (s\<lparr> page := snd (set_value searchInput v (page s)) \<rparr>)
     | SearchClick rnd \<Rightarrow> handleSearch rnd s
     | EnterKey rnd \<Rightarrow> handleSearch rnd s
     | SuggestionClick suggestion rnd \<Rightarrow> applySuggestion suggestion rnd s
     | TimerFires t \<Rightarrow>
         (case find (\<lambda>(i, delay, q). i = t) (timers s) of
            None \<Rightarrow> s
          | Some (i, delay, q) \<Rightarrow>
              suggestion_callback q
                (s\<lparr> timers := filter (\<lambda>(i, delay, q). i \<noteq> t) (timers s) \<rparr>))
     | FetchSettles r out \<Rightarrow>
         (case find (\<lambda>(i, who, req). i = r) (inflight s) of
            None \<Rightarrow> s
          | Some (i, who, req) \<Rightarrow>
              s\<lparr> page := snd (resume eng who out (page s)),
                 inflight := filter (\<lambda>(i, who, req). i \<noteq> r) (inflight s) \<rparr>)
     | SearchClick2 \<Rightarrow> performSearch_from_input eng s
     | EnterKey2 \<Rightarrow> performSearch_from_input eng s
     | ExampleClick k \<Rightarrow> example_click eng k s)"

definition run :: "'n engine \<Rightarrow> 'n event list \<Rightarrow> 'n ui_state \<Rightarrow> 'n ui_state" where
  "run eng evs s = foldl (\<lambda>s ev. step eng ev s) s evs"

section \<open>Notions used in the statements\<close>

text \<open>
  The string \<open>Math.random().toString(36)\<close>: the number is in the interval from 0 to 1,
  1 excluded, so its base-36 text is \<open>0\<close> or \<open>0.\<close> followed by base-36 digits.
\<close>

definition is_base36_digit :: "16 word \<Rightarrow> bool" where
  "is_base36_digit c = ((0x0030 \<le> c \<and> c \<le> 0x0039) \<or> (0x0061 \<le> c \<and> c \<le> 0x007A))"

definition random_base36 :: "js_string \<Rightarrow> bool" where
  "random_base36 rnd =
     (rnd = js ''0'' \<or> (take 2 rnd = js ''0.'' \<and> list_all is_base36_digit (drop 2 rnd)))"

text \<open>
  The texts a settled fetch carries: the status text and every string of the parsed body.
\<close>

fun json_texts :: "'n json \<Rightarrow> js_string list" where
  "json_texts JNull = []"
| "json_texts (JBool b) = []"
| "json_texts (JNum n) = []"
| "json_texts (JStr s) = [s]"
| "json_texts (JArr xs) = concat (map json_texts xs)"
| "json_texts (JObj kv) = concat (map (\<lambda>(k, v). k # json_texts v) kv)"

definition outcome_texts :: "'n outcome \<Rightarrow> js_string list" where
  "outcome_texts out = (case out of
       Rejected \<Rightarrow> []
     | Response ok statusText parsed \<Rightarrow>
         statusText # (case parsed of None \<Rightarrow> [] | Some data \<Rightarrow> json_texts data))"

text \<open>
  Modelled from the spec: the Query Planner's \<open>plan\<close> is not in this repository. Of it the
  spec says that it fails with MalformedQueryError when the raw text is empty or whitespace
  after trimming; \<open>plan_rejects_blank\<close> is that condition on the \<open>query\<close> of a request.
\<close>

definition plan_rejects_blank :: "js_string \<Rightarrow> bool" where
  "plan_rejects_blank raw_text = (trim raw_text = [])"

text \<open>
  An engine for concrete evaluations: its numbers are the integers, printed in decimal;
  of ToNumber on strings it knows the plain digit strings.
\<close>

function decimal :: "nat \<Rightarrow> js_string" where
  "decimal n = (if n < 10 then [of_nat (48 + n)] else decimal (n div 10) @ [of_nat (48 + n mod 10)])"
  by pat_completeness auto
termination
  by (relation "measure (\<lambda>n. n)") auto

definition integer_text :: "int \<Rightarrow> js_string" where
  "integer_text n = (if n < 0 then js ''-'' @ decimal (nat (- n)) else decimal (nat n))"

definition integer_engine :: "int engine" where
  "integer_engine =
     \<lparr> number_to_string = integer_text,
       number_to_fixed = (\<lambda>n d. integer_text n @ (if d = 0 then [] else js ''.'' @ replicate d 0x0030)),
       number_truthy = (\<lambda>n. n \<noteq> 0),
       number_gt_zero = (\<lambda>n. 0 < n),
       string_gt_zero = (\<lambda>s. s \<noteq> [] \<and> list_all (\<lambda>c. 0x0030 \<le> c \<and> c \<le> 0x0039) s
                               \<and> \<not> list_all (\<lambda>c. c = 0x0030) s),
       math_round = Some,
       builtin_message = (\<lambda>e. case e of
           Error m \<Rightarrow> m
         | TypeError t \<Rightarrow> js ''TypeError: '' @ js t
         | RangeError t \<Rightarrow> js ''RangeError: '' @ js t
         | SyntaxError \<Rightarrow> js ''SyntaxError: Unexpected token'') \<rparr>"


text \<open>
  The footprint of an operation on the page: \<open>frame K f\<close> says that \<open>f\<close> reads and
  writes only the elements of \<open>K\<close>.
\<close>

definition frame :: "string set \<Rightarrow> (dom \<Rightarrow> exn option \<times> dom) \<Rightarrow> bool" where
  "frame K f =
     ((\<forall>d d'. (\<forall>i \<in> K. d i = d' i) \<longrightarrow>
          fst (f d) = fst (f d') \<and> (\<forall>i \<in> K. snd (f d) i = snd (f d') i))
      \<and> (\<forall>d i. i \<notin> K \<longrightarrow> snd (f d) i = d i))"

text \<open>
  The events of the suggestion path (an edit of the search field, a timer, the response to
  a suggestion request) and the requests of the two search entry points that are in flight.
\<close>

definition suggestion_event :: "'n ui_state \<Rightarrow> 'n event \<Rightarrow> bool" where
  "suggestion_event s ev = (case ev of
       Input v \<Rightarrow> True
     | TimerFires t \<Rightarrow> True
     | FetchSettles r out \<Rightarrow>
         (case find (\<lambda>(i, who, req). i = r) (inflight s) of
            None \<Rightarrow> False
          | Some (i, who, req) \<Rightarrow> who = Suggestion)
     | _ \<Rightarrow> False)"

definition search_in_flight :: "'n ui_state \<Rightarrow> nat \<Rightarrow> bool" where
  "search_in_flight s r = (case find (\<lambda>(i, who, req). i = r) (inflight s) of
       None \<Rightarrow> False
     | Some (i, who, req) \<Rightarrow> who \<noteq> Suggestion)"

section \<open>Basic facts\<close>


lemma js_simps: "js [] = []" "js (c # cs) = of_char c # js cs"
  by (simp_all add: js_def)

lemma bindings:
  "searchInput = Some ''searchInput''" "searchButton = Some ''searchButton''"
  "suggestions = Some ''suggestions''" "suggestionsList = Some ''suggestionsList''"
  "loading = Some ''loading''" "results = Some ''results''" "aiResponse = None"
  "productResults = Some ''productResults''" "error = Some ''error''"
  "errorMessage = Some ''errorMessage''"
  by (simp_all add: searchInput_def searchButton_def suggestions_def suggestionsList_def
      loading_def results_def aiResponse_def productResults_def error_def errorMessage_def
      getElementById_def index_html_def)

lemmas dom_ops = classList_add_def classList_remove_def set_innerHTML_def set_textContent_def
  get_value_def set_value_def seq_def

lemma trim_idem: "trim (trim s) = trim s"
proof -
  define a where "a = dropWhile is_trimmed s"
  define b where "b = dropWhile is_trimmed (rev a)"
  have "dropWhile is_trimmed (rev b) = rev b"
  proof (cases "b = []")
    case True
    then show ?thesis by simp
  next
    case False
    then have a: "a \<noteq> []" by (auto simp: b_def)
    have "last b = last (rev a)"
      using False unfolding b_def
      by (metis takeWhile_dropWhile_id last_appendR)
    also have "\<dots> = hd a" using a by (simp add: last_rev)
    finally have "\<not> is_trimmed (last b)"
      using a hd_dropWhile [of is_trimmed s] by (simp add: a_def)
    then have "\<not> is_trimmed (hd (rev b))" using False by (simp add: hd_rev)
    then show ?thesis using False by (cases "rev b") simp_all
  qed
  then show ?thesis
    by (simp add: trim_def a_def b_def)
qed

lemma handleSearch_cases:
  "handleSearch rnd s = s \<and> trim (val (page s ''searchInput'')) = []
   \<or> (\<exists>d ls uid. trim (val (page s ''searchInput'')) \<noteq> [] \<and>
        handleSearch rnd s =
          s\<lparr> page := d, currentQuery := trim (val (page s ''searchInput'')), localStorage := ls,
             inflight := inflight s @
               [(Suc (request_counter s), HandleSearch,
                 \<lparr> url = ''/api/search'', http_method = ''POST'',
                   content_type = ''application/json'',
                   body = [(''query'', JStr (trim (val (page s ''searchInput'')))),
                           (''user_id'', JStr uid), (''filters'', JObj []),
                           (''context'', JObj [])] \<rparr>)],
             request_counter := Suc (request_counter s) \<rparr>)"
  by (cases "getUserId rnd (localStorage s)")
     (auto simp: handleSearch_def bindings dom_ops showLoading_def hideError_def Let_def
        fetch_def API_BASE_URL_def)

lemma performSearch_cases:
  "performSearch eng query s = s \<and> trim query = []
   \<or> (\<exists>d. trim query \<noteq> [] \<and>
        performSearch eng query s =
          s\<lparr> page := d,
             inflight := inflight s @
               [(Suc (request_counter s), PerformSearch,
                 \<lparr> url = ''/api/search'', http_method = ''POST'',
                   content_type = ''application/json'',
                   body = [(''query'', JStr query)] \<rparr>)],
             request_counter := Suc (request_counter s) \<rparr>)"
  by (auto simp: performSearch_def bindings dom_ops fetch_def)


section \<open>What a step sends and schedules\<close>

lemma handleSearchInput_inflight: "inflight (handleSearchInput v s) = inflight s"
  by (simp add: handleSearchInput_def Let_def clearTimeout_def setTimeout_def
      split: option.splits)

lemma handleSearchInput_timers:
  "x \<in> set (timers (handleSearchInput v s)) \<Longrightarrow>
     x \<in> set (timers s) \<or> (2 \<le> length (trim v) \<and> x = (Suc (timer_counter s), DEBOUNCE_DELAY, trim v))"
  by (auto simp: handleSearchInput_def Let_def clearTimeout_def setTimeout_def
      split: option.splits if_splits)

lemma step_inflight:
  assumes "x \<in> set (inflight (step eng ev s))"
  shows "x \<in> set (inflight s)
    \<or> (\<exists>q uid. trim q \<noteq> [] \<and>
          x = (Suc (request_counter s), HandleSearch,
               \<lparr> url = ''/api/search'', http_method = ''POST'',
                 content_type = ''application/json'',
                 body = [(''query'', JStr q), (''user_id'', JStr uid), (''filters'', JObj []),
                         (''context'', JObj [])] \<rparr>))
    \<or> (\<exists>t d q. (t, d, q) \<in> set (timers s) \<and>
          x = (Suc (request_counter s), Suggestion,
               \<lparr> url = ''/api/search'', http_method = ''POST'',
                 content_type = ''application/json'',
                 body = [(''query'', JStr q), (''generate_suggestions'', JBool True)] \<rparr>))
    \<or> (\<exists>q. trim q \<noteq> [] \<and>
          x = (Suc (request_counter s), PerformSearch,
               \<lparr> url = ''/api/search'', http_method = ''POST'',
                 content_type = ''application/json'',
                 body = [(''query'', JStr q)] \<rparr>))"
proof (cases ev)
  case (Input v)
  with assms show ?thesis by (simp add: step_def handleSearchInput_inflight)
next
  case (SearchClick rnd)
  with assms handleSearch_cases [of rnd s] show ?thesis
    by (auto simp: step_def trim_idem)
next
  case (EnterKey rnd)
  with assms handleSearch_cases [of rnd s] show ?thesis
    by (auto simp: step_def trim_idem)
next
  case (SuggestionClick suggestion rnd)
  with assms handleSearch_cases [of rnd "s\<lparr> page := snd (set_value searchInput suggestion (page s)) \<rparr>"]
  show ?thesis
    by (auto simp: step_def applySuggestion_def bindings dom_ops trim_idem)
next
  case (TimerFires t)
  show ?thesis
  proof (cases "find (\<lambda>(i, delay, q). i = t) (timers s)")
    case None
    with assms TimerFires show ?thesis by (simp add: step_def)
  next
    case (Some a)
    obtain i d q where a: "a = (i, d, q)" by (cases a)
    from Some a have "(i, d, q) \<in> set (timers s)"
      by (auto simp: find_Some_iff in_set_conv_nth)
    with assms TimerFires Some a show ?thesis
      by (auto simp: step_def suggestion_callback_def fetch_def API_BASE_URL_def)
  qed
next
  case (FetchSettles r out)
  with assms show ?thesis
    by (auto simp: step_def split: option.splits)
next
  case SearchClick2
  with assms performSearch_cases [of eng "trim (val (page s ''searchInput''))" s] show ?thesis
    by (auto simp: step_def performSearch_from_input_def bindings dom_ops trim_idem)
next
  case EnterKey2
  with assms performSearch_cases [of eng "trim (val (page s ''searchInput''))" s] show ?thesis
    by (auto simp: step_def performSearch_from_input_def bindings dom_ops trim_idem)
next
  case (ExampleClick k)
  with assms performSearch_cases [of eng "strip_quotes (example_searches ! k)"
      "s\<lparr> page := snd (set_value searchInput (strip_quotes (example_searches ! k)) (page s)) \<rparr>"]
  show ?thesis
    by (auto simp: step_def example_click_def bindings dom_ops Let_def split: if_splits)
qed

lemma handleSearch_timers: "timers (handleSearch rnd s) = timers s"
  using handleSearch_cases [of rnd s] by auto

lemma performSearch_timers: "timers (performSearch eng q s) = timers s"
  using performSearch_cases [of eng q s] by auto

lemma step_timers:
  assumes "x \<in> set (timers (step eng ev s))"
  shows "x \<in> set (timers s)
     \<or> (\<exists>v. 2 \<le> length (trim v) \<and> x = (Suc (timer_counter s), DEBOUNCE_DELAY, trim v))"
proof (cases ev)
  case (Input v)
  with assms handleSearchInput_timers [of x v "s\<lparr> page := snd (set_value searchInput v (page s)) \<rparr>"]
  show ?thesis by (auto simp: step_def)
next
  case (TimerFires t)
  with assms show ?thesis
    by (auto simp: step_def suggestion_callback_def fetch_def split: option.splits)
next
  case (FetchSettles r out)
  with assms show ?thesis by (auto simp: step_def split: option.splits)
qed (use assms in \<open>auto simp: step_def handleSearch_timers performSearch_timers
      applySuggestion_def performSearch_from_input_def example_click_def bindings dom_ops Let_def
      split: if_splits\<close>)


lemma trim_Nil: "trim [] = []"
  by (simp add: trim_def)

section \<open>Reachable states\<close>

lemma run_snoc: "run eng (evs @ [ev]) s = step eng ev (run eng evs s)"
  by (simp add: run_def)

lemma run_Nil: "run eng [] s = s"
  by (simp add: run_def)

lemma reachable_timers:
  "(t, d, q) \<in> set (timers (run eng evs initial_state)) \<Longrightarrow> trim q \<noteq> [] \<and> 0 < t"
proof (induction evs arbitrary: t d q rule: rev_induct)
  case Nil
  then show ?case by (simp add: run_Nil initial_state_def)
next
  case (snoc ev evs)
  from snoc.prems step_timers [of "(t, d, q)" eng ev "run eng evs initial_state"]
  show ?case using snoc.IH by (auto simp: run_snoc trim_idem)
qed

lemma reachable_requests:
  assumes "x \<in> set (inflight (run eng evs initial_state))"
  shows "\<exists>i q. trim q \<noteq> [] \<and>
     ((\<exists>uid. x = (i, HandleSearch,
               \<lparr> url = ''/api/search'', http_method = ''POST'',
                 content_type = ''application/json'',
                 body = [(''query'', JStr q), (''user_id'', JStr uid), (''filters'', JObj []),
                         (''context'', JObj [])] \<rparr>))
      \<or> x = (i, Suggestion,
               \<lparr> url = ''/api/search'', http_method = ''POST'',
                 content_type = ''application/json'',
                 body = [(''query'', JStr q), (''generate_suggestions'', JBool True)] \<rparr>)
      \<or> x = (i, PerformSearch,
               \<lparr> url = ''/api/search'', http_method = ''POST'',
                 content_type = ''application/json'',
                 body = [(''query'', JStr q)] \<rparr>))"
  using assms
proof (induction evs arbitrary: x rule: rev_induct)
  case Nil
  then show ?case by (simp add: run_Nil initial_state_def)
next
  case (snoc ev evs)
  from snoc.prems have "x \<in> set (inflight (step eng ev (run eng evs initial_state)))"
    by (simp add: run_snoc)
  from step_inflight [OF this] show ?case
  proof (elim disjE exE conjE)
    assume "x \<in> set (inflight (run eng evs initial_state))"
    then show ?thesis by (rule snoc.IH)
  next
    fix t d q
    assume "(t, d, q) \<in> set (timers (run eng evs initial_state))"
      and x: "x = (Suc (request_counter (run eng evs initial_state)), Suggestion,
               \<lparr> url = ''/api/search'', http_method = ''POST'',
                 content_type = ''application/json'',
                 body = [(''query'', JStr q), (''generate_suggestions'', JBool True)] \<rparr>)"
    then have "trim q \<noteq> []" using reachable_timers by blast
    with x show ?thesis by blast
  qed blast+
qed

section \<open>Blank input\<close>

text \<open>
  C4. When the text of the search field is empty after trimming, \<open>handleSearch\<close> returns
  the state as it is, and so do the click and Enter listeners of both scripts; so does
  \<open>performSearch\<close> for an argument that is empty after trimming. Hence no request is
  issued. Every request in flight in a reachable state (a request is in flight from the step
  that sends it) has a \<open>query\<close> that is not empty after trimming, so the blank-text
  failure of \<open>plan\<close> is never reached.
\<close>

theorem blank_input_sends_nothing:
  "(trim (val (page s ''searchInput'')) = [] \<longrightarrow>
      handleSearch rnd s = s \<and> step eng (SearchClick rnd) s = s \<and> step eng (EnterKey rnd) s = s
      \<and> step eng SearchClick2 s = s \<and> step eng EnterKey2 s = s)
   \<and> (trim query = [] \<longrightarrow> performSearch eng query s = s)
   \<and> (\<forall>x \<in> set (inflight (run eng evs initial_state)). case x of (i, who, req) \<Rightarrow>
         \<exists>q. map_of (body req) ''query'' = Some (JStr q) \<and> trim q \<noteq> []
              \<and> \<not> plan_rejects_blank q)"
proof (intro conjI impI ballI)
  assume blank: "trim (val (page s ''searchInput'')) = []"
  with handleSearch_cases [of rnd s] show h: "handleSearch rnd s = s" by auto
  then show "step eng (SearchClick rnd) s = s" "step eng (EnterKey rnd) s = s"
    by (simp_all add: step_def)
  from blank show "step eng SearchClick2 s = s" "step eng EnterKey2 s = s"
    by (simp_all add: step_def performSearch_from_input_def performSearch_def bindings dom_ops
        trim_Nil)
next
  assume "trim query = []"
  then show "performSearch eng query s = s" by (simp add: performSearch_def)
next
  fix x
  assume "x \<in> set (inflight (run eng evs initial_state))"
  from reachable_requests [OF this] show "case x of (i, who, req) \<Rightarrow>
         \<exists>q. map_of (body req) ''query'' = Some (JStr q) \<and> trim q \<noteq> []
              \<and> \<not> plan_rejects_blank q"
    by (auto simp: plan_rejects_blank_def)
qed


lemmas eval_defs = run_def step_def handleSearchInput_def handleSearch_def performSearch_def
  performSearch_from_input_def example_click_def applySuggestion_def suggestion_callback_def
  fetch_def setTimeout_def clearTimeout_def initial_state_def initial_dom_def index_html_def
  bindings dom_ops showLoading_def hideLoading_def showError_def hideError_def
  hideSuggestions_def trim_def is_trimmed_def is_white_space_def is_line_terminator_def
  js_simps Let_def API_BASE_URL_def DEBOUNCE_DELAY_def getUserId_def substr_def
  example_searches_def strip_quotes_def

theorem blank_input_sends_nothing_witness:
  "trim (val (page (step integer_engine (Input (js ''  '')) initial_state) ''searchInput'')) = []
   \<and> handleSearch (js ''0.abc'') (step integer_engine (Input (js ''  '')) initial_state)
       = step integer_engine (Input (js ''  '')) initial_state
   \<and> trim (js '' '') = []
   \<and> performSearch integer_engine (js '' '') initial_state = initial_state
   \<and> (1, Suggestion, \<lparr> url = ''/api/search'', http_method = ''POST'',
         content_type = ''application/json'',
         body = [(''query'', JStr (js ''tv'')), (''generate_suggestions'', JBool True)] \<rparr>)
       \<in> set (inflight (run integer_engine [Input (js '' tv''), TimerFires 1] initial_state))
   \<and> \<not> plan_rejects_blank (js ''tv'')"
proof -
  let ?s = "step integer_engine (Input (js ''  '')) initial_state"
  let ?x = "(1, Suggestion, \<lparr> url = ''/api/search'', http_method = ''POST'',
         content_type = ''application/json'',
         body = [(''query'', JStr (js ''tv'')), (''generate_suggestions'', JBool True)] \<rparr>
         :: int request)"
  have blank: "trim (val (page ?s ''searchInput'')) = []"
    by (simp add: eval_defs)
  have blank': "trim (js '' '') = []"
    by (simp add: eval_defs)
  have sent: "?x \<in> set (inflight (run integer_engine [Input (js '' tv''), TimerFires 1] initial_state))"
    by (simp add: eval_defs)
  note inst = blank_input_sends_nothing [where s = ?s and rnd = "js ''0.abc''"
      and eng = integer_engine and query = "js '' ''"
      and evs = "[Input (js '' tv''), TimerFires 1]"]
  from inst blank have "handleSearch (js ''0.abc'') ?s = ?s" by blast
  moreover have "performSearch integer_engine (js '' '') initial_state = initial_state"
    using blank_input_sends_nothing [where s = initial_state and eng = integer_engine
      and query = "js '' ''"] blank' by blast
  moreover from inst sent have "\<not> plan_rejects_blank (js ''tv'')"
    by fastforce
  ultimately show ?thesis using blank blank' sent by blast
qed


section \<open>The fields of the requests\<close>

text \<open>
  C5 (as amended). Every request of \<open>handleSearch\<close> has the field \<open>context\<close> with value
  \<open>{}\<close>; every request of \<open>performSearch\<close> is \<open>{ query }\<close> alone and has no
  \<open>context\<close> field.
\<close>

theorem search_context_by_entry_point:
  "\<forall>x \<in> set (inflight (run eng evs initial_state)). case x of (i, who, req) \<Rightarrow>
     (who = HandleSearch \<longrightarrow> map_of (body req) ''context'' = Some (JObj []))
     \<and> (who = PerformSearch \<longrightarrow>
          map_of (body req) ''context'' = None \<and> (\<exists>q. body req = [(''query'', JStr q)]))"
proof
  fix x
  assume "x \<in> set (inflight (run eng evs initial_state))"
  from reachable_requests [OF this]
  show "case x of (i, who, req) \<Rightarrow>
     (who = HandleSearch \<longrightarrow> map_of (body req) ''context'' = Some (JObj []))
     \<and> (who = PerformSearch \<longrightarrow>
          map_of (body req) ''context'' = None \<and> (\<exists>q. body req = [(''query'', JStr q)]))"
    by auto
qed

theorem search_context_by_entry_point_witness:
  "(1, HandleSearch, \<lparr> url = ''/api/search'', http_method = ''POST'',
       content_type = ''application/json'',
       body = [(''query'', JStr (js ''tv'')), (''user_id'', JStr (js ''user_abc'')),
               (''filters'', JObj []), (''context'', JObj [])] \<rparr>)
     \<in> set (inflight (run integer_engine [Input (js ''tv''), SearchClick (js ''0.abc'')] initial_state))
   \<and> map_of [(''query'', JStr (js ''tv'')), (''user_id'', JStr (js ''user_abc'')),
               (''filters'', JObj []), (''context'', JObj [] :: int json)] ''context''
       = Some (JObj [])"
proof -
  let ?b = "[(''query'', JStr (js ''tv'')), (''user_id'', JStr (js ''user_abc'')),
               (''filters'', JObj []), (''context'', JObj [] :: int json)]"
  let ?x = "(1::nat, HandleSearch, \<lparr> url = ''/api/search'', http_method = ''POST'',
       content_type = ''application/json'', body = ?b \<rparr>)"
  have sent: "?x \<in> set (inflight (run integer_engine [Input (js ''tv''), SearchClick (js ''0.abc'')] initial_state))"
    by (simp add: eval_defs)
  with search_context_by_entry_point [of integer_engine "[Input (js ''tv''), SearchClick (js ''0.abc'')]"]
  have "map_of ?b ''context'' = Some (JObj [])" by fastforce
  with sent show ?thesis by blast
qed

text \<open>
  C5 as stated fails for \<open>performSearch\<close>: the request sent on a click on the first example
  search has the field \<open>query\<close> only.
\<close>

theorem performSearch_context_counterexample:
  "fst (snd (hd (inflight (run integer_engine [ExampleClick 0] initial_state)))) = PerformSearch
   \<and> body (snd (snd (hd (inflight (run integer_engine [ExampleClick 0] initial_state)))))
       = [(''query'', JStr (js ''gaming laptop under $2000''))]
   \<and> map_of (body (snd (snd (hd (inflight (run integer_engine [ExampleClick 0] initial_state))))))
        ''context'' = None"
  by (simp add: eval_defs)



section \<open>displayResults and the missing element\<close>

lemma get_member_error: "get_member v k = Inl e \<Longrightarrow> \<exists>t. e = TypeError t"
  by (auto simp: get_member_def split: option.splits json.splits)

lemma formatAIResponse_error: "formatAIResponse v = Inl e \<Longrightarrow> \<exists>t. e = TypeError t"
  by (auto simp: formatAIResponse_def split: option.splits json.splits)

lemma displayResults_throws:
  "\<exists>t. displayResults eng data d =
     (Some (TypeError t),
      d(''results'' := (d ''results'')\<lparr> classList :=
          (if ''animate-fade-in'' \<in> set (removeAll ''hidden'' (classList (d ''results'')))
           then removeAll ''hidden'' (classList (d ''results''))
           else removeAll ''hidden'' (classList (d ''results'')) @ [''animate-fade-in'']) \<rparr>))"
proof (cases "and_then (get_member (Some data) ''ai_response'') (\<lambda>ai_response.
                 formatAIResponse
                   (or_else eng ai_response (Some (JStr (js ''No response available.'')))))")
  case (Inl e)
  then have "\<exists>t. e = TypeError t"
    by (auto simp: and_then_def split: sum.splits
        dest: get_member_error formatAIResponse_error)
  with Inl show ?thesis
    by (auto simp: displayResults_def bindings dom_ops)
next
  case (Inr h)
  then show ?thesis
    by (auto simp: displayResults_def bindings dom_ops)
qed

lemma handleSearch_try_throws: "\<exists>e d'. handleSearch_try eng out d = (Some e, d')"
proof (cases out)
  case Rejected
  then show ?thesis by (simp add: handleSearch_try_def)
next
  case (Response ok statusText parsed)
  show ?thesis
  proof (cases parsed)
    case None
    with Response show ?thesis by (simp add: handleSearch_try_def)
  next
    case (Some data)
    with Response displayResults_throws [of eng data d] show ?thesis
      by (cases ok) (auto simp: handleSearch_try_def)
  qed
qed

lemma handleSearch_resume_shows_error:
  assumes "handleSearch_try eng out d = (Some e, d')"
  shows "handleSearch_resume eng out d =
     (None, d'(''error'' := (d' ''error'')\<lparr> classList := removeAll ''hidden'' (classList (d' ''error'')) \<rparr>,
               ''errorMessage'' := (d' ''errorMessage'')\<lparr> content := Text (message eng e) \<rparr>,
               ''loading'' := (d' ''loading'')\<lparr> classList :=
                  (if ''hidden'' \<in> set (classList (d' ''loading'')) then classList (d' ''loading'')
                   else classList (d' ''loading'') @ [''hidden'']) \<rparr>))"
  using assms
  by (simp add: handleSearch_resume_def catch_finally_def showError_def hideLoading_def
      bindings dom_ops)

text \<open>
  C1. index.html has no element with id \<open>aiResponse\<close>, so the binding is \<open>null\<close> and
  \<open>displayResults\<close> throws a TypeError on every call. Whatever the fetch of
  \<open>handleSearch\<close> settles with, a successful response included, the \<open>catch\<close> branch
  runs: the error panel is displayed and the error text is the message of the exception.
\<close>

theorem displayResults_always_throws:
  "aiResponse = None
   \<and> ''aiResponse'' \<notin> set (map fst index_html)
   \<and> (\<exists>t. fst (displayResults eng data d) = Some (TypeError t))
   \<and> (\<exists>e. fst (handleSearch_try eng out d) = Some e
          \<and> content (snd (handleSearch_resume eng out d) ''errorMessage'') = Text (message eng e))
   \<and> shown ''error'' (snd (handleSearch_resume eng out d))
   \<and> (find (\<lambda>(i, who, req). i = r) (inflight s) = Some (r, HandleSearch, req) \<longrightarrow>
        shown ''error'' (page (step eng (FetchSettles r out) s)))"
proof -
  obtain e d' where thrown: "handleSearch_try eng out d = (Some e, d')"
    using handleSearch_try_throws by blast
  obtain e2 d2 where thrown2: "handleSearch_try eng out (page s) = (Some e2, d2)"
    using handleSearch_try_throws by blast
  have "''aiResponse'' \<notin> set (map fst index_html)"
    by (simp add: index_html_def)
  moreover have "\<exists>t. fst (displayResults eng data d) = Some (TypeError t)"
    using displayResults_throws [of eng data d] by auto
  moreover have "\<exists>e. fst (handleSearch_try eng out d) = Some e
          \<and> content (snd (handleSearch_resume eng out d) ''errorMessage'') = Text (message eng e)"
    using thrown handleSearch_resume_shows_error [OF thrown] by simp
  moreover have "shown ''error'' (snd (handleSearch_resume eng out d))"
    using handleSearch_resume_shows_error [OF thrown] by (simp add: shown_def)
  moreover have "shown ''error'' (page (step eng (FetchSettles r out) s))"
    if "find (\<lambda>(i, who, req). i = r) (inflight s) = Some (r, HandleSearch, req)"
    using that handleSearch_resume_shows_error [OF thrown2]
    by (simp add: step_def resume_def shown_def)
  ultimately show ?thesis
    by (simp add: bindings)
qed

theorem displayResults_always_throws_witness:
  "find (\<lambda>(i, who, req). i = 1)
      (inflight (run integer_engine [Input (js ''tv''), SearchClick (js ''0.abc'')] initial_state))
     = Some (1, HandleSearch, \<lparr> url = ''/api/search'', http_method = ''POST'',
         content_type = ''application/json'',
         body = [(''query'', JStr (js ''tv'')), (''user_id'', JStr (js ''user_abc'')),
                 (''filters'', JObj []), (''context'', JObj [])] \<rparr>)
   \<and> shown ''error'' (page (run integer_engine
        [Input (js ''tv''), SearchClick (js ''0.abc''),
         FetchSettles 1 (Response True (js ''OK'')
           (Some (JObj [(js ''products'', JArr []), (js ''ai_response'', JStr (js ''Found 0.''))])))]
        initial_state))"
proof -
  let ?evs = "[Input (js ''tv''), SearchClick (js ''0.abc'')] :: int event list"
  let ?out = "Response True (js ''OK'')
           (Some (JObj [(js ''products'', JArr []), (js ''ai_response'', JStr (js ''Found 0.''))]))
           :: int outcome"
  have pending: "find (\<lambda>(i, who, req). i = 1) (inflight (run integer_engine ?evs initial_state))
     = Some (1, HandleSearch, \<lparr> url = ''/api/search'', http_method = ''POST'',
         content_type = ''application/json'',
         body = [(''query'', JStr (js ''tv'')), (''user_id'', JStr (js ''user_abc'')),
                 (''filters'', JObj []), (''context'', JObj [])] \<rparr>)"
    by (simp add: eval_defs)
  have "run integer_engine (?evs @ [FetchSettles 1 ?out]) initial_state
      = step integer_engine (FetchSettles 1 ?out) (run integer_engine ?evs initial_state)"
    by (rule run_snoc)
  with pending displayResults_always_throws [where eng = integer_engine and out = ?out and r = 1
      and s = "run integer_engine ?evs initial_state"]
  show ?thesis by simp
qed

section \<open>The text of the error panel\<close>

lemma performSearch_resume_shows_error:
  assumes "performSearch_try eng out d = (Some e, d')"
  shows "performSearch_resume eng out d =
     (None, d'(''error'' := (d' ''error'')\<lparr> classList := removeAll ''hidden'' (classList (d' ''error'')) \<rparr>,
               ''errorMessage'' := (d' ''errorMessage'')\<lparr> content := Text (message eng e) \<rparr>,
               ''loading'' := (d' ''loading'')\<lparr> classList :=
                  (if ''hidden'' \<in> set (classList (d' ''loading'')) then classList (d' ''loading'')
                   else classList (d' ''loading'') @ [''hidden'']) \<rparr>))"
  using assms
  by (simp add: performSearch_resume_def catch_finally_def performSearch_handler_def
      performSearch_finally_def bindings dom_ops)

text \<open>
  C7 (as amended). The text of the error element is the message of the exception that the
  handler caught. For a response that is not ok it is the text the UI itself gives to
  \<open>new Error\<close>: \<open>Search request failed\<close> in \<open>handleSearch\<close>, whatever the response, and
  \<open>Search request failed: \<close> followed by the status text in \<open>performSearch\<close>; the body
  of the response is not read.
\<close>

theorem error_text_is_caught_message:
  "content (snd (handleSearch_resume eng (Response False statusText parsed) d) ''errorMessage'')
     = Text (js ''Search request failed'')
   \<and> content (snd (performSearch_resume eng (Response False statusText parsed) d) ''errorMessage'')
     = Text (js ''Search request failed: '' @ statusText)
   \<and> (fst (handleSearch_try eng out d) = Some e \<longrightarrow>
        content (snd (handleSearch_resume eng out d) ''errorMessage'') = Text (message eng e))
   \<and> (fst (performSearch_try eng out d) = Some e \<longrightarrow>
        content (snd (performSearch_resume eng out d) ''errorMessage'') = Text (message eng e))"
proof -
  have "handleSearch_try eng (Response False statusText parsed) d
      = (Some (Error (js ''Search request failed'')), d)"
    by (simp add: handleSearch_try_def)
  from handleSearch_resume_shows_error [OF this]
  have a: "content (snd (handleSearch_resume eng (Response False statusText parsed) d) ''errorMessage'')
     = Text (js ''Search request failed'')"
    by (simp add: message_def)
  have "performSearch_try eng (Response False statusText parsed) d
      = (Some (Error (js ''Search request failed: '' @ statusText)), d)"
    by (simp add: performSearch_try_def)
  from performSearch_resume_shows_error [OF this]
  have b: "content (snd (performSearch_resume eng (Response False statusText parsed) d) ''errorMessage'')
     = Text (js ''Search request failed: '' @ statusText)"
    by (simp add: message_def)
  have c: "content (snd (handleSearch_resume eng out d) ''errorMessage'') = Text (message eng e)"
    if "fst (handleSearch_try eng out d) = Some e"
  proof -
    from that have "handleSearch_try eng out d = (Some e, snd (handleSearch_try eng out d))"
      by (metis prod.collapse)
    from handleSearch_resume_shows_error [OF this] show ?thesis by simp
  qed
  have d: "content (snd (performSearch_resume eng out d) ''errorMessage'') = Text (message eng e)"
    if "fst (performSearch_try eng out d) = Some e"
  proof -
    from that have "performSearch_try eng out d = (Some e, snd (performSearch_try eng out d))"
      by (metis prod.collapse)
    from performSearch_resume_shows_error [OF this] show ?thesis by simp
  qed
  from a b c d show ?thesis by blast
qed

theorem error_text_is_caught_message_witness:
  "fst (handleSearch_try integer_engine Rejected initial_dom) = Some (TypeError ''Failed to fetch'')
   \<and> content (snd (handleSearch_resume integer_engine Rejected initial_dom) ''errorMessage'')
       = Text (js ''TypeError: Failed to fetch'')
   \<and> fst (performSearch_try integer_engine (Response True (js ''OK'') None) initial_dom)
       = Some SyntaxError
   \<and> content (snd (performSearch_resume integer_engine (Response True (js ''OK'') None) initial_dom)
        ''errorMessage'') = Text (js ''SyntaxError: Unexpected token'')"
proof -
  have a: "fst (handleSearch_try integer_engine Rejected initial_dom) = Some (TypeError ''Failed to fetch'')"
    by (simp add: handleSearch_try_def)
  have b: "fst (performSearch_try integer_engine (Response True (js ''OK'') None) initial_dom)
       = Some SyntaxError"
    by (simp add: performSearch_try_def)
  have m1: "message integer_engine (TypeError ''Failed to fetch'') = js ''TypeError: Failed to fetch''"
    by (simp add: message_def integer_engine_def js_simps)
  have m2: "message integer_engine SyntaxError = js ''SyntaxError: Unexpected token''"
    by (simp add: message_def integer_engine_def js_simps)
  from a error_text_is_caught_message [where eng = integer_engine and out = Rejected
      and d = initial_dom and e = "TypeError ''Failed to fetch''"]
  have c: "content (snd (handleSearch_resume integer_engine Rejected initial_dom) ''errorMessage'')
       = Text (message integer_engine (TypeError ''Failed to fetch''))"
    by blast
  from b error_text_is_caught_message [where eng = integer_engine
      and out = "Response True (js ''OK'') None" and d = initial_dom and e = SyntaxError]
  have d: "content (snd (performSearch_resume integer_engine (Response True (js ''OK'') None) initial_dom)
        ''errorMessage'') = Text (message integer_engine SyntaxError)"
    by blast
  from a b c d show ?thesis
    unfolding m1 m2 by blast
qed

text \<open>
  C7 as stated fails: for a response that is not ok and whose body carries the backend's
  message, \<open>handleSearch\<close> shows its own fixed text, which is none of the texts of the
  response.
\<close>

theorem error_text_from_backend_counterexample:
  "content (snd (handleSearch_resume integer_engine
       (Response False (js ''Unprocessable Entity'')
          (Some (JObj [(js ''detail'', JStr (js ''Query must not be empty''))])))
       initial_dom) ''errorMessage'')
     = Text (js ''Search request failed'')
   \<and> js ''Search request failed''
       \<notin> set (outcome_texts (Response False (js ''Unprocessable Entity'')
             (Some (JObj [(js ''detail'', JStr (js ''Query must not be empty'')) :: (js_string \<times> int json)]))))"
  by (simp add: handleSearch_resume_def handleSearch_try_def catch_finally_def showError_def
      hideLoading_def bindings dom_ops message_def outcome_texts_def js_simps)


section \<open>displaySuggestions\<close>




section \<open>The debounce timer\<close>

lemma handleSearch_searchTimeout: "searchTimeout (handleSearch rnd s) = searchTimeout s"
  using handleSearch_cases [of rnd s] by auto

lemma performSearch_searchTimeout: "searchTimeout (performSearch eng q s) = searchTimeout s"
  using performSearch_cases [of eng q s] by auto

lemma input_timers:
  assumes "\<forall>x \<in> set (timers s). searchTimeout s = Some (fst x) \<and> fst x \<noteq> 0"
  shows "timers (step eng (Input v) s) =
     (if length (trim v) < 2 then [] else [(Suc (timer_counter s), DEBOUNCE_DELAY, trim v)])"
    and "length (trim v) < 2 \<or> searchTimeout (step eng (Input v) s) = Some (Suc (timer_counter s))"
proof -
  have "filter (\<lambda>(i, delay, q). i \<noteq> t) (timers s) = []" if "searchTimeout s = Some t" for t
    using assms that by (auto simp: filter_empty_conv)
  moreover have "timers s = []" if "searchTimeout s = None \<or> searchTimeout s = Some 0"
    using assms that by (cases "timers s") auto
  ultimately show "timers (step eng (Input v) s) =
     (if length (trim v) < 2 then [] else [(Suc (timer_counter s), DEBOUNCE_DELAY, trim v)])"
    by (auto simp: step_def handleSearchInput_def Let_def clearTimeout_def setTimeout_def
        split: option.splits)
  show "length (trim v) < 2 \<or> searchTimeout (step eng (Input v) s) = Some (Suc (timer_counter s))"
    by (auto simp: step_def handleSearchInput_def Let_def clearTimeout_def setTimeout_def
        split: option.splits)
qed

lemma step_timer_invariant:
  assumes "\<forall>x \<in> set (timers s). searchTimeout s = Some (fst x) \<and> fst x \<noteq> 0"
    and "length (timers s) \<le> 1"
  shows "(\<forall>x \<in> set (timers (step eng ev s)).
            searchTimeout (step eng ev s) = Some (fst x) \<and> fst x \<noteq> 0)
         \<and> length (timers (step eng ev s)) \<le> 1"
proof (cases ev)
  case (Input v)
  with input_timers [OF assms(1), where eng = eng and v = v] show ?thesis by auto
next
  case (TimerFires t)
  have "length (filter (\<lambda>(i, delay, q). i \<noteq> t) (timers s)) \<le> Suc 0"
    using assms(2) order_trans [OF length_filter_le, of "timers s" 1] by simp
  with assms TimerFires show ?thesis
    by (auto simp: step_def suggestion_callback_def fetch_def split: option.splits)
next
  case (FetchSettles r out)
  with assms show ?thesis by (auto simp: step_def split: option.splits)
qed (use assms in \<open>auto simp: step_def handleSearch_timers performSearch_timers
      handleSearch_searchTimeout performSearch_searchTimeout
      applySuggestion_def performSearch_from_input_def example_click_def bindings dom_ops Let_def
      split: if_splits\<close>)

lemma reachable_timer_invariant:
  "(\<forall>x \<in> set (timers (run eng evs initial_state)).
       searchTimeout (run eng evs initial_state) = Some (fst x) \<and> fst x \<noteq> 0)
   \<and> length (timers (run eng evs initial_state)) \<le> 1"
proof (induction evs rule: rev_induct)
  case Nil
  then show ?case by (simp add: run_Nil initial_state_def)
next
  case (snoc ev evs)
  then show ?case
    using step_timer_invariant [of "run eng evs initial_state" eng ev]
    by (simp add: run_snoc)
qed

text \<open>
  C3 (as amended). At any time at most one debounce timer is pending: each input event
  clears the pending timer, if there is one, and schedules a new one only when the trimmed
  text has two characters or more. A suggestion fetch that is already in flight is not
  cancelled by an input event: the requests in flight are as before.
\<close>

theorem input_cancels_pending_timer:
  "length (timers (run eng evs initial_state)) \<le> 1
   \<and> timers (step eng (Input v) (run eng evs initial_state)) =
       (if length (trim v) < 2 then []
        else [(Suc (timer_counter (run eng evs initial_state)), DEBOUNCE_DELAY, trim v)])
   \<and> inflight (step eng (Input v) s) = inflight s"
  using reachable_timer_invariant [of eng evs]
    input_timers(1) [where s = "run eng evs initial_state" and eng = eng and v = v]
  by (simp add: step_def handleSearchInput_inflight)

theorem input_cancels_pending_timer_witness:
  "timers (run integer_engine [Input (js ''tv'')] initial_state) = [(1, 300, js ''tv'')]
   \<and> timers (step integer_engine (Input (js ''tv s''))
        (run integer_engine [Input (js ''tv'')] initial_state)) = [(2, 300, js ''tv s'')]"
proof -
  have a: "timers (run integer_engine [Input (js ''tv'')] initial_state) = [(1, 300, js ''tv'')]"
    by (simp add: eval_defs)
  have b: "timer_counter (run integer_engine [Input (js ''tv'')] initial_state) = 1"
    by (simp add: eval_defs)
  have c: "trim (js ''tv s'') = js ''tv s''"
    by (simp add: eval_defs)
  from input_cancels_pending_timer [where eng = integer_engine and evs = "[Input (js ''tv'')]"
      and v = "js ''tv s''"]
  have "timers (step integer_engine (Input (js ''tv s''))
        (run integer_engine [Input (js ''tv'')] initial_state)) =
       (if length (trim (js ''tv s'')) < 2 then []
        else [(Suc (timer_counter (run integer_engine [Input (js ''tv'')] initial_state)),
               DEBOUNCE_DELAY, trim (js ''tv s''))])"
    by blast
  then have "timers (step integer_engine (Input (js ''tv s''))
        (run integer_engine [Input (js ''tv'')] initial_state)) = [(2, 300, js ''tv s'')]"
    unfolding b c by (simp add: DEBOUNCE_DELAY_def js_simps)
  with a show ?thesis by blast
qed

text \<open>
  C3 as stated fails: after the timer of a first input has fired, its fetch is in flight;
  a further input leaves that fetch in flight and schedules a new timer, so two suggestion
  computations are active.
\<close>

theorem suggestion_fetch_not_cancelled_counterexample:
  "timers (run integer_engine [Input (js ''tv''), TimerFires 1, Input (js ''tv s'')] initial_state)
     = [(2, 300, js ''tv s'')]
   \<and> inflight (run integer_engine [Input (js ''tv''), TimerFires 1, Input (js ''tv s'')] initial_state)
     = [(1, Suggestion, \<lparr> url = ''/api/search'', http_method = ''POST'',
          content_type = ''application/json'',
          body = [(''query'', JStr (js ''tv'')), (''generate_suggestions'', JBool True)] \<rparr>)]
   \<and> length (timers (run integer_engine [Input (js ''tv''), TimerFires 1, Input (js ''tv s'')]
         initial_state))
     + length (filter (\<lambda>(i, who, req). who = Suggestion)
         (inflight (run integer_engine [Input (js ''tv''), TimerFires 1, Input (js ''tv s'')]
           initial_state))) = 2"
  by (simp add: eval_defs)


section \<open>Footprints\<close>

lemma frame_const: "frame K (\<lambda>d. (r, d))"
  by (simp add: frame_def)

lemma frame_fst: "frame K f \<Longrightarrow> \<forall>i \<in> K. d i = d' i \<Longrightarrow> fst (f d) = fst (f d')"
  unfolding frame_def by blast

lemma frame_snd:
  "frame K f \<Longrightarrow> \<forall>i \<in> K. d i = d' i \<Longrightarrow> \<forall>i \<in> K. snd (f d) i = snd (f d') i"
  unfolding frame_def by blast

lemma frame_keep: "frame K f \<Longrightarrow> i \<notin> K \<Longrightarrow> snd (f d) i = d i"
  unfolding frame_def by blast

lemma frameI:
  assumes "\<And>d d'. \<forall>i \<in> K. d i = d' i \<Longrightarrow>
      fst (f d) = fst (f d') \<and> (\<forall>i \<in> K. snd (f d) i = snd (f d') i)"
    and "\<And>d i. i \<notin> K \<Longrightarrow> snd (f d) i = d i"
  shows "frame K f"
  unfolding frame_def using assms by blast

lemma frame_mono:
  assumes "frame K f" and "K \<subseteq> L"
  shows "frame L f"
proof (rule frameI)
  fix d d' :: dom
  assume ag: "\<forall>i \<in> L. d i = d' i"
  with assms(2) have agK: "\<forall>i \<in> K. d i = d' i" by blast
  have "snd (f d) i = snd (f d') i" if "i \<in> L" for i
  proof (cases "i \<in> K")
    case True
    with frame_snd [OF assms(1) agK] show ?thesis by blast
  next
    case False
    with frame_keep [OF assms(1)] ag that show ?thesis by simp
  qed
  with frame_fst [OF assms(1) agK]
  show "fst (f d) = fst (f d') \<and> (\<forall>i \<in> L. snd (f d) i = snd (f d') i)" by blast
next
  fix d :: dom and i
  assume "i \<notin> L"
  with assms(2) have "i \<notin> K" by blast
  then show "snd (f d) i = d i" by (rule frame_keep [OF assms(1)])
qed

lemma seq_alt:
  "seq f g d = (case fst (f d) of None \<Rightarrow> g (snd (f d)) | Some e \<Rightarrow> (Some e, snd (f d)))"
  by (simp add: seq_def split: prod.splits option.splits)

lemma frame_seq:
  assumes f: "frame K f" and g: "frame K g"
  shows "frame K (seq f g)"
proof (rule frameI)
  fix d d' :: dom
  assume ag: "\<forall>i \<in> K. d i = d' i"
  note 1 = frame_fst [OF f ag] and 2 = frame_snd [OF f ag]
  show "fst (seq f g d) = fst (seq f g d') \<and> (\<forall>i \<in> K. snd (seq f g d) i = snd (seq f g d') i)"
  proof (cases "fst (f d)")
    case None
    moreover from None 1 have "fst (f d') = None" by simp
    ultimately have "seq f g d = g (snd (f d))" "seq f g d' = g (snd (f d'))"
      by (simp_all add: seq_alt)
    with frame_fst [OF g 2] frame_snd [OF g 2] show ?thesis by simp
  next
    case (Some e)
    moreover from Some 1 have "fst (f d') = Some e" by simp
    ultimately have "seq f g d = (Some e, snd (f d))" "seq f g d' = (Some e, snd (f d'))"
      by (simp_all add: seq_alt)
    with 2 show ?thesis by simp
  qed
next
  fix d :: dom and i
  assume ni: "i \<notin> K"
  note 1 = frame_keep [OF f ni, of d] and 2 = frame_keep [OF g ni, of "snd (f d)"]
  show "snd (seq f g d) i = d i"
    using 1 2 by (cases "fst (f d)") (simp_all add: seq_alt)
qed

lemma frame_classList_add: "i \<in> K \<Longrightarrow> frame K (classList_add (Some i) c)"
  by (auto simp: frame_def classList_add_def)

lemma frame_classList_remove: "i \<in> K \<Longrightarrow> frame K (classList_remove (Some i) c)"
  by (auto simp: frame_def classList_remove_def)

lemma frame_set_innerHTML: "i \<in> K \<Longrightarrow> frame K (set_innerHTML (Some i) h)"
  by (auto simp: frame_def set_innerHTML_def)

lemma frame_set_textContent: "i \<in> K \<Longrightarrow> frame K (set_textContent (Some i) h)"
  by (auto simp: frame_def set_textContent_def)

lemma frame_set_value: "i \<in> K \<Longrightarrow> frame K (set_value (Some i) h)"
  by (auto simp: frame_def set_value_def)

lemma frame_null:
  "frame K (classList_add None c)" "frame K (classList_remove None c)"
  "frame K (set_innerHTML None h)" "frame K (set_textContent None h)"
  by (simp_all add: frame_def classList_add_def classList_remove_def set_innerHTML_def
      set_textContent_def)

lemma frame_catch_finally:
  assumes "\<And>err. frame K (handler err)" and "frame K finalizer" and "frame K f"
  shows "frame K (\<lambda>d. catch_finally handler finalizer (f d))"
proof (rule frameI)
  let ?c = "\<lambda>d. catch_finally handler finalizer (f d)"
  fix d d' :: dom
  assume ag: "\<forall>i \<in> K. d i = d' i"
  note 1 = frame_fst [OF assms(3) ag] and 2 = frame_snd [OF assms(3) ag]
  obtain t d1 where fd: "f d = (t, d1)" by (cases "f d")
  obtain d1' where fd': "f d' = (t, d1')" using 1 fd by (cases "f d'") auto
  from 2 fd fd' have ag1: "\<forall>i \<in> K. d1 i = d1' i" by simp
  define h where "h = (case t of Some err \<Rightarrow> handler err | None \<Rightarrow> (\<lambda>d. (None, d)))"
  have fh: "frame K h" using assms(1) by (cases t) (simp_all add: h_def frame_const)
  note 3 = frame_fst [OF fh ag1] and 4 = frame_snd [OF fh ag1]
  note 5 = frame_fst [OF assms(2) 4] and 6 = frame_snd [OF assms(2) 4]
  have c: "?c x = (case fst (finalizer (snd (h y))) of
                     Some e \<Rightarrow> (Some e, snd (finalizer (snd (h y))))
                   | None \<Rightarrow> (fst (h y), snd (finalizer (snd (h y)))))"
    if "f x = (t, y)" for x y
    using that by (cases t) (auto simp: catch_finally_def h_def split: prod.splits option.splits)
  show "fst (?c d) = fst (?c d') \<and> (\<forall>i \<in> K. snd (?c d) i = snd (?c d') i)"
    using c [OF fd] c [OF fd'] 3 5 6 by (auto split: option.splits)
next
  let ?c = "\<lambda>d. catch_finally handler finalizer (f d)"
  fix d :: dom and i
  assume ni: "i \<notin> K"
  obtain t d1 where fd: "f d = (t, d1)" by (cases "f d")
  from frame_keep [OF assms(3) ni, of d] fd have 1: "d1 i = d i" by simp
  define h where "h = (case t of Some err \<Rightarrow> handler err | None \<Rightarrow> (\<lambda>d. (None, d)))"
  have fh: "frame K h" using assms(1) by (cases t) (simp_all add: h_def frame_const)
  note 2 = frame_keep [OF fh ni, of d1]
  note 3 = frame_keep [OF assms(2) ni, of "snd (h d1)"]
  have "snd (?c d) = snd (finalizer (snd (h d1)))"
    using fd by (cases t) (auto simp: catch_finally_def h_def split: prod.splits option.splits)
  with 1 2 3 show "snd (?c d) i = d i" by simp
qed

lemma frame_commute:
  assumes "frame K f" and "frame L g" and "K \<inter> L = {}"
  shows "snd (g (snd (f d))) = snd (f (snd (g d)))"
proof
  fix i
  have fK: "\<forall>j \<in> K. snd (g d) j = d j" using frame_keep [OF assms(2)] assms(3) by blast
  have gL: "\<forall>j \<in> L. snd (f d) j = d j" using frame_keep [OF assms(1)] assms(3) by blast
  show "snd (g (snd (f d))) i = snd (f (snd (g d))) i"
  proof (cases "i \<in> K")
    case True
    then have "i \<notin> L" using assms(3) by blast
    then have "snd (g (snd (f d))) i = snd (f d) i" by (rule frame_keep [OF assms(2)])
    moreover have "snd (f (snd (g d))) i = snd (f d) i"
      using frame_snd [OF assms(1) fK] True by blast
    ultimately show ?thesis by simp
  next
    case False
    then have 1: "snd (f (snd (g d))) i = snd (g d) i" by (rule frame_keep [OF assms(1)])
    show ?thesis
    proof (cases "i \<in> L")
      case True
      have "snd (g (snd (f d))) i = snd (g d) i"
        using frame_snd [OF assms(2) gL] True by blast
      with 1 show ?thesis by simp
    next
      case False
      then have "snd (g (snd (f d))) i = snd (f d) i" "snd (g d) i = d i"
        by (rule frame_keep [OF assms(2)])+
      moreover have "snd (f d) i = d i" using \<open>i \<notin> K\<close> by (rule frame_keep [OF assms(1)])
      ultimately show ?thesis using 1 by simp
    qed
  qed
qed


lemma frame_case_sum:
  assumes "\<And>e. frame K (f e)" and "\<And>x. frame K (g x)"
  shows "frame K (\<lambda>d. case r of Inl e \<Rightarrow> f e d | Inr x \<Rightarrow> g x d)"
  using assms by (cases r) simp_all

lemma frame_set_innerHTML_ref:
  "r = None \<or> (\<exists>i \<in> K. r = Some i) \<Longrightarrow> frame K (set_innerHTML r h)"
  by (auto simp: frame_null frame_set_innerHTML)

lemma frame_displayResults:
  "frame {''results'', ''error'', ''errorMessage'', ''loading'', ''productResults''}
     (displayResults eng data)"
  unfolding displayResults_def
  by (intro frame_seq frame_case_sum frame_const frame_set_innerHTML_ref)
     (simp_all add: bindings frame_classList_add frame_classList_remove)

lemma frame_handleSearch_try:
  "frame {''results'', ''error'', ''errorMessage'', ''loading'', ''productResults''}
     (handleSearch_try eng out)"
proof -
  have "handleSearch_try eng out = (\<lambda>d. (Some (TypeError ''Failed to fetch''), d))
      \<or> handleSearch_try eng out = (\<lambda>d. (Some (Error (js ''Search request failed'')), d))
      \<or> handleSearch_try eng out = (\<lambda>d. (Some SyntaxError, d))
      \<or> (\<exists>data. handleSearch_try eng out = displayResults eng data)"
    by (auto simp: handleSearch_try_def fun_eq_iff split: outcome.splits option.splits)
  then show ?thesis
    by (auto simp: frame_const frame_displayResults)
qed

lemma frame_showError:
  "frame {''results'', ''error'', ''errorMessage'', ''loading'', ''productResults''}
     (showError msg)"
  unfolding showError_def
  by (intro frame_seq) (simp_all add: bindings frame_classList_remove frame_set_textContent)

lemma frame_handleSearch_resume:
  "frame {''results'', ''error'', ''errorMessage'', ''loading'', ''productResults''}
     (handleSearch_resume eng out)"
proof -
  have "handleSearch_resume eng out =
      (\<lambda>d. catch_finally (\<lambda>err. showError (message eng err)) hideLoading
             (handleSearch_try eng out d))"
    by (simp add: handleSearch_resume_def fun_eq_iff)
  moreover have "frame {''results'', ''error'', ''errorMessage'', ''loading'', ''productResults''}
      hideLoading"
    by (simp add: hideLoading_def bindings frame_classList_add)
  ultimately show ?thesis
    using frame_catch_finally [OF frame_showError _ frame_handleSearch_try] by simp
qed

lemma frame_performSearch_try:
  "frame {''results'', ''error'', ''errorMessage'', ''loading'', ''productResults''}
     (performSearch_try eng out)"
proof -
  let ?K = "{''results'', ''error'', ''errorMessage'', ''loading'', ''productResults''}"
  let ?render = "\<lambda>(c :: bool) products d.
        if c then
          (case products of
             Some (JArr ps) \<Rightarrow>
               (case map_exn (product_markup eng) ps of
                  Inl e \<Rightarrow> (Some e, d)
                | Inr items \<Rightarrow> set_innerHTML productResults (concat items) d)
           | _ \<Rightarrow> (Some (TypeError ''map is not a function''), d))
        else set_innerHTML productResults no_products_found d"
  have inner: "frame ?K (?render c products)" for c products
  proof (cases c)
    case False
    then show ?thesis by (simp add: bindings frame_set_innerHTML)
  next
    case True
    show ?thesis
    proof (cases products)
      case None
      with True show ?thesis by (simp add: frame_const)
    next
      case (Some a)
      show ?thesis
      proof (cases a)
        case (JArr ps)
        with Some True show ?thesis
          by (cases "map_exn (product_markup eng) ps")
             (simp_all add: bindings frame_const frame_set_innerHTML)
      qed (use Some True in \<open>simp_all add: frame_const\<close>)
    qed
  qed
  have render: "frame ?K (seq (?render c products) (classList_remove results ''hidden''))"
    for c products
    by (rule frame_seq [OF inner]) (simp add: bindings frame_classList_remove)
  have "(\<exists>e. performSearch_try eng out = (\<lambda>d. (Some e, d)))
      \<or> (\<exists>c products. performSearch_try eng out =
            seq (?render c products) (classList_remove results ''hidden''))"
  proof (cases out)
    case Rejected
    then show ?thesis by (auto simp: performSearch_try_def fun_eq_iff)
  next
    case (Response ok statusText parsed)
    show ?thesis
    proof (cases "ok \<and> parsed \<noteq> None")
      case False
      with Response show ?thesis
        by (cases parsed) (auto simp: performSearch_try_def fun_eq_iff)
    next
      case True
      then obtain data where data: "parsed = Some data" and ok: ok by auto
      show ?thesis
      proof (cases "get_member (Some data) ''products''")
        case (Inl e)
        with Response data ok show ?thesis
          by (auto simp: performSearch_try_def fun_eq_iff)
      next
        case (Inr products)
        with Response data ok have "performSearch_try eng out =
            seq (?render (truthy eng products \<and> length_gt_zero eng products) products)
              (classList_remove results ''hidden'')"
          by (simp add: performSearch_try_def fun_eq_iff)
        then show ?thesis by blast
      qed
    qed
  qed
  with render show ?thesis
    by (auto simp: frame_const)
qed

lemma frame_performSearch_resume:
  "frame {''results'', ''error'', ''errorMessage'', ''loading'', ''productResults''}
     (performSearch_resume eng out)"
proof -
  let ?K = "{''results'', ''error'', ''errorMessage'', ''loading'', ''productResults''}"
  have "performSearch_resume eng out =
      (\<lambda>d. catch_finally (performSearch_handler eng) performSearch_finally
             (performSearch_try eng out d))"
    by (simp add: performSearch_resume_def fun_eq_iff)
  moreover have "frame ?K performSearch_finally"
    by (simp add: performSearch_finally_def bindings frame_classList_add)
  moreover have "frame ?K (performSearch_handler eng err)" for err
    unfolding performSearch_handler_def
    by (intro frame_seq) (simp_all add: bindings frame_classList_remove frame_set_textContent)
  ultimately show ?thesis
    using frame_catch_finally [of ?K "performSearch_handler eng" performSearch_finally
        "performSearch_try eng out"] frame_performSearch_try [of eng out]
    by simp
qed

lemma frame_suggestion_resume: "frame {''suggestions''} (suggestion_resume eng out)"
proof -
  have shown: "frame {''suggestions''}
      (\<lambda>d. case displaySuggestions eng arg d of (thrown, props, d') \<Rightarrow> (None, d'))" for arg
    by (rule frameI)
       (auto simp: displaySuggestions_def hideSuggestions_def bindings dom_ops
          split: json.splits)
  have "suggestion_resume eng out = (\<lambda>d. (None, d))
      \<or> (\<exists>arg. suggestion_resume eng out =
            (\<lambda>d. case displaySuggestions eng arg d of (thrown, props, d') \<Rightarrow> (None, d')))"
    by (auto simp: suggestion_resume_def fun_eq_iff split: outcome.splits option.splits sum.splits)
  with shown show ?thesis
    by (auto simp: frame_const)
qed


section \<open>Suggestions and the search in flight\<close>

lemma frame_resume_search:
  "who \<noteq> Suggestion \<Longrightarrow>
     frame {''results'', ''error'', ''errorMessage'', ''loading'', ''productResults''}
       (resume eng who out)"
  by (cases who) (simp_all add: resume_def frame_handleSearch_resume frame_performSearch_resume)

lemma input_page:
  "page (step eng (Input v) s) =
     snd (seq (set_value searchInput v)
            (\<lambda>d. if length (trim v) < 2 then hideSuggestions d else (None, d)) (page s))"
  by (simp add: step_def handleSearchInput_def Let_def clearTimeout_def setTimeout_def
      bindings dom_ops split: option.splits)

lemma frame_input:
  "frame {''searchInput'', ''suggestions''}
     (seq (set_value searchInput v)
        (\<lambda>d. if length (trim v) < 2 then hideSuggestions d else (None, d)))"
proof (rule frame_seq)
  show "frame {''searchInput'', ''suggestions''} (set_value searchInput v)"
    by (simp add: bindings frame_set_value)
  show "frame {''searchInput'', ''suggestions''}
      (\<lambda>d. if length (trim v) < 2 then hideSuggestions d else (None, d))"
    by (cases "length (trim v) < 2")
       (simp_all add: bindings hideSuggestions_def frame_classList_add frame_const)
qed

lemma find_id_append:
  "find P xs = Some x \<Longrightarrow> find P (xs @ ys) = Some x"
  by (induction xs) (auto split: if_splits)

lemma find_id_filter:
  "r \<noteq> r' \<Longrightarrow>
     find (\<lambda>(i, who, req). i = r) (filter (\<lambda>(i, who, req). i \<noteq> r') xs)
       = find (\<lambda>(i, who, req). i = r) xs"
  by (induction xs) auto

lemma find_id_fst: "find (\<lambda>(i, who, req). i = r) xs = Some (i, x) \<Longrightarrow> i = r"
  by (induction xs) (auto split: if_splits)

lemma settle_page:
  "find (\<lambda>(i, who, req). i = r) (inflight s) = Some (r, who, req) \<Longrightarrow>
     page (step eng (FetchSettles r out) s) = snd (resume eng who out (page s))
     \<and> inflight (step eng (FetchSettles r out) s) = filter (\<lambda>(i, who, req). i \<noteq> r) (inflight s)
     \<and> timers (step eng (FetchSettles r out) s) = timers s"
  by (simp add: step_def)

lemma search_in_flightD:
  "search_in_flight s r \<Longrightarrow>
     \<exists>who req. find (\<lambda>(i, who, req). i = r) (inflight s) = Some (r, who, req) \<and> who \<noteq> Suggestion"
  by (auto simp: search_in_flight_def split: option.splits dest: find_id_fst)

lemma disjoint_footprints:
  "{''results'', ''error'', ''errorMessage'', ''loading'', ''productResults''}
     \<inter> {''searchInput'', ''suggestions''} = {}"
  "{''results'', ''error'', ''errorMessage'', ''loading'', ''productResults''}
     \<inter> {''suggestions''} = {}"
  by simp_all

lemma suggestion_event_commutes:
  assumes ev: "suggestion_event s ev"
    and r: "find (\<lambda>(i, who, req). i = r) (inflight s) = Some (r, who, req)"
    and who: "who \<noteq> Suggestion"
  shows "find (\<lambda>(i, who, req). i = r) (inflight (step eng ev s)) = Some (r, who, req)"
    and "page (step eng (FetchSettles r out) (step eng ev s))
       = page (step eng ev (step eng (FetchSettles r out) s))"
proof -
  let ?K = "{''results'', ''error'', ''errorMessage'', ''loading'', ''productResults''}"
  note fr = frame_resume_search [OF who, of eng out]
  note after = settle_page [OF r, of eng out]
  have "find (\<lambda>(i, who, req). i = r) (inflight (step eng ev s)) = Some (r, who, req)
      \<and> page (step eng (FetchSettles r out) (step eng ev s))
       = page (step eng ev (step eng (FetchSettles r out) s))"
  proof (cases ev)
    case (Input v)
    have same: "inflight (step eng (Input v) s) = inflight s"
      by (simp add: step_def handleSearchInput_inflight)
    with r have r': "find (\<lambda>(i, who, req). i = r) (inflight (step eng (Input v) s))
        = Some (r, who, req)" by simp
    from settle_page [OF r', of eng out] after
      frame_commute [OF frame_input fr, of v "page s"] disjoint_footprints(1)
    have "page (step eng (FetchSettles r out) (step eng (Input v) s))
       = page (step eng (Input v) (step eng (FetchSettles r out) s))"
      by (simp add: input_page [of eng v] Int_commute)
    with r' Input show ?thesis by simp
  next
    case (TimerFires t)
    show ?thesis
    proof (cases "find (\<lambda>(i, delay, q). i = t) (timers s)")
      case None
      with TimerFires after show ?thesis using r by (simp add: step_def)
    next
      case (Some a)
      obtain i d q where a: "a = (i, d, q)" by (cases a)
      from Some a TimerFires have st: "inflight (step eng ev s) =
          inflight s @ [(Suc (request_counter s), Suggestion,
             \<lparr> url = API_BASE_URL @ ''/search'', http_method = ''POST'',
               content_type = ''application/json'',
               body = [(''query'', JStr q), (''generate_suggestions'', JBool True)] \<rparr>)]"
        and pg: "page (step eng ev s) = page s"
        by (simp_all add: step_def suggestion_callback_def fetch_def)
      from r st have r': "find (\<lambda>(i, who, req). i = r) (inflight (step eng ev s))
          = Some (r, who, req)"
        by (simp add: find_id_append)
      have "page (step eng ev (step eng (FetchSettles r out) s))
          = page (step eng (FetchSettles r out) s)"
        using TimerFires after
        by (simp add: step_def [of eng "TimerFires t"] suggestion_callback_def fetch_def
            split: option.splits)
      with settle_page [OF r', of eng out] after pg r' show ?thesis by simp
    qed
  next
    case (FetchSettles r' out')
    with ev obtain req' where r': "find (\<lambda>(i, who, req). i = r') (inflight s)
        = Some (r', Suggestion, req')"
      by (auto simp: suggestion_event_def split: option.splits dest: find_id_fst)
    with r who have ne: "r \<noteq> r'" by auto
    note after' = settle_page [OF r', of eng out']
    from r after' ne have r1: "find (\<lambda>(i, who, req). i = r)
        (inflight (step eng (FetchSettles r' out') s)) = Some (r, who, req)"
      by (simp add: find_id_filter)
    from r' after ne have r2: "find (\<lambda>(i, who, req). i = r')
        (inflight (step eng (FetchSettles r out) s)) = Some (r', Suggestion, req')"
      by (simp add: find_id_filter)
    from settle_page [OF r1, of eng out] settle_page [OF r2, of eng out'] after after'
      frame_commute [OF frame_suggestion_resume fr, of eng out' "page s"] disjoint_footprints(2)
    have "page (step eng (FetchSettles r out) (step eng (FetchSettles r' out') s))
       = page (step eng (FetchSettles r' out') (step eng (FetchSettles r out) s))"
      by (simp add: resume_def Int_commute)
    with r1 FetchSettles show ?thesis by simp
  qed (use ev in \<open>simp_all add: suggestion_event_def\<close>)
  then show "find (\<lambda>(i, who, req). i = r) (inflight (step eng ev s)) = Some (r, who, req)"
    and "page (step eng (FetchSettles r out) (step eng ev s))
       = page (step eng ev (step eng (FetchSettles r out) s))"
    by simp_all
qed

text \<open>
  C2. An event of the suggestion path (an edit of the search field, a debounce timer that
  fires, the response to a suggestion request) leaves a request of \<open>handleSearch\<close> or
  \<open>performSearch\<close> that is in flight as it is, and the handling of its result has the same
  effect on the page whether it runs before or after that event. The input handler removes
  no request at all; of the pending timers it removes only the one whose id is in
  \<open>searchTimeout\<close> (clearTimeout), before it may schedule a new one.
\<close>

theorem suggestions_never_cancel_search:
  "(suggestion_event s ev \<and> search_in_flight s r \<longrightarrow>
      find (\<lambda>(i, who, req). i = r) (inflight (step eng ev s))
        = find (\<lambda>(i, who, req). i = r) (inflight s)
      \<and> page (step eng (FetchSettles r out) (step eng ev s))
        = page (step eng ev (step eng (FetchSettles r out) s)))
   \<and> inflight (step eng (Input v) s) = inflight s
   \<and> timers (step eng (Input v) s) =
       filter (\<lambda>(i, delay, q). searchTimeout s \<noteq> Some i \<or> i = 0) (timers s)
       @ (if length (trim v) < 2 then []
          else [(Suc (timer_counter s), DEBOUNCE_DELAY, trim v)])"
proof (intro conjI impI)
  assume a: "suggestion_event s ev \<and> search_in_flight s r"
  then obtain who req
    where r: "find (\<lambda>(i, who, req). i = r) (inflight s) = Some (r, who, req)"
      and who: "who \<noteq> Suggestion"
    using search_in_flightD by blast
  from a have ev: "suggestion_event s ev" by simp
  from suggestion_event_commutes(1) [OF ev r who, of eng] r
  show "find (\<lambda>(i, who, req). i = r) (inflight (step eng ev s))
        = find (\<lambda>(i, who, req). i = r) (inflight s)"
    by simp
  from suggestion_event_commutes(2) [OF ev r who, of eng out]
  show "page (step eng (FetchSettles r out) (step eng ev s))
        = page (step eng ev (step eng (FetchSettles r out) s))" .
next
  show "inflight (step eng (Input v) s) = inflight s"
    by (simp add: step_def handleSearchInput_inflight)
next
  have "(\<lambda>(i, delay, q). i \<noteq> t) = (\<lambda>(i :: nat, delay :: nat, q :: js_string). t \<noteq> i)" for t
    by (auto simp: fun_eq_iff)
  then show "timers (step eng (Input v) s) =
       filter (\<lambda>(i, delay, q). searchTimeout s \<noteq> Some i \<or> i = 0) (timers s)
       @ (if length (trim v) < 2 then []
          else [(Suc (timer_counter s), DEBOUNCE_DELAY, trim v)])"
    by (auto simp: step_def handleSearchInput_def Let_def clearTimeout_def setTimeout_def
        split: option.splits)
qed

theorem suggestions_never_cancel_search_witness:
  "suggestion_event (run integer_engine [Input (js ''tv''), SearchClick (js ''0.abc'')] initial_state)
      (Input (js ''tv s''))
   \<and> search_in_flight (run integer_engine [Input (js ''tv''), SearchClick (js ''0.abc'')] initial_state) 1
   \<and> find (\<lambda>(i, who, req). i = 1)
        (inflight (step integer_engine (Input (js ''tv s''))
           (run integer_engine [Input (js ''tv''), SearchClick (js ''0.abc'')] initial_state)))
      = Some (1, HandleSearch, \<lparr> url = ''/api/search'', http_method = ''POST'',
          content_type = ''application/json'',
          body = [(''query'', JStr (js ''tv'')), (''user_id'', JStr (js ''user_abc'')),
                  (''filters'', JObj []), (''context'', JObj [])] \<rparr>)
   \<and> page (step integer_engine (FetchSettles 1 Rejected)
         (step integer_engine (Input (js ''tv s''))
           (run integer_engine [Input (js ''tv''), SearchClick (js ''0.abc'')] initial_state)))
     = page (step integer_engine (Input (js ''tv s''))
         (step integer_engine (FetchSettles 1 Rejected)
           (run integer_engine [Input (js ''tv''), SearchClick (js ''0.abc'')] initial_state)))"
proof -
  let ?s = "run integer_engine [Input (js ''tv''), SearchClick (js ''0.abc'')] initial_state"
  have ev: "suggestion_event ?s (Input (js ''tv s''))"
    by (simp add: suggestion_event_def)
  have pending: "find (\<lambda>(i, who, req). i = 1) (inflight ?s)
      = Some (1, HandleSearch, \<lparr> url = ''/api/search'', http_method = ''POST'',
          content_type = ''application/json'',
          body = [(''query'', JStr (js ''tv'')), (''user_id'', JStr (js ''user_abc'')),
                  (''filters'', JObj []), (''context'', JObj [])] \<rparr>)"
    by (simp add: eval_defs)
  then have r: "search_in_flight ?s 1"
    by (simp add: search_in_flight_def)
  from ev r pending
    suggestions_never_cancel_search [where s = ?s and ev = "Input (js ''tv s'')" and r = 1
      and eng = integer_engine and out = Rejected]
  show ?thesis by simp
qed


section \<open>The fields the renderers read\<close>

lemma result_members:
  "get_member (Some (JObj [(js ''product'', p)])) ''product'' = Inr (Some p)"
  "get_member (Some (JObj [(js ''product'', p)])) ''explanation'' = Inr None"
  by (simp_all add: get_member_def js_simps)

text \<open>
  C8 (as amended). The card of \<open>createProductCard\<close> depends on the product's name,
  description, price, category and attributes only, all of them fields of the outbound
  contract. The markup of \<open>performSearch\<close> depends on the product's name, price,
  description, rating and reviews_count only; rating and reviews_count are not fields of
  the contract. Of the response, \<open>displayResults\<close> reads ai_response and products,
  \<open>performSearch\<close> reads products and the suggestion path reads suggestions.
\<close>

theorem renderers_read_these_fields:
  "(list_all (\<lambda>k. get_member (Some p) k = get_member (Some p') k)
       [''name'', ''description'', ''price'', ''category'', ''attributes''] \<longrightarrow>
      createProductCard eng (Some (JObj [(js ''product'', p)]))
        = createProductCard eng (Some (JObj [(js ''product'', p')])))
   \<and> (list_all (\<lambda>k. get_member (Some p) k = get_member (Some p') k)
       [''name'', ''price'', ''description'', ''rating'', ''reviews_count''] \<longrightarrow>
      product_markup eng p = product_markup eng p')
   \<and> (list_all (\<lambda>k. get_member (Some data) k = get_member (Some data') k)
       [''ai_response'', ''products''] \<longrightarrow>
      displayResults eng data d = displayResults eng data' d)
   \<and> (get_member (Some data) ''products'' = get_member (Some data') ''products'' \<longrightarrow>
      performSearch_try eng (Response ok statusText (Some data)) d
        = performSearch_try eng (Response ok statusText (Some data')) d)
   \<and> (get_member (Some data) ''suggestions'' = get_member (Some data') ''suggestions'' \<longrightarrow>
      suggestion_resume eng (Response ok statusText (Some data)) d
        = suggestion_resume eng (Response ok statusText (Some data')) d)"
proof (intro conjI impI)
  assume "list_all (\<lambda>k. get_member (Some p) k = get_member (Some p') k)
       [''name'', ''description'', ''price'', ''category'', ''attributes'']"
  then show "createProductCard eng (Some (JObj [(js ''product'', p)]))
        = createProductCard eng (Some (JObj [(js ''product'', p')]))"
    by (simp add: createProductCard_def result_members and_then_def truthy_def cong: sum.case_cong)
next
  assume "list_all (\<lambda>k. get_member (Some p) k = get_member (Some p') k)
       [''name'', ''price'', ''description'', ''rating'', ''reviews_count'']"
  then show "product_markup eng p = product_markup eng p'"
    by (simp add: product_markup_def)
next
  assume "list_all (\<lambda>k. get_member (Some data) k = get_member (Some data') k)
       [''ai_response'', ''products'']"
  then show "displayResults eng data d = displayResults eng data' d"
    by (simp add: displayResults_def products_markup_def)
next
  assume "get_member (Some data) ''products'' = get_member (Some data') ''products''"
  then show "performSearch_try eng (Response ok statusText (Some data)) d
        = performSearch_try eng (Response ok statusText (Some data')) d"
    by (simp add: performSearch_try_def)
next
  assume "get_member (Some data) ''suggestions'' = get_member (Some data') ''suggestions''"
  then show "suggestion_resume eng (Response ok statusText (Some data)) d
        = suggestion_resume eng (Response ok statusText (Some data')) d"
    by (simp add: suggestion_resume_def)
qed

theorem renderers_read_these_fields_witness:
  "list_all (\<lambda>k. get_member (Some (JObj [(js ''name'', JStr (js ''Laptop'')), (js ''price'', JNum 999),
                   (js ''rating'', JNum 4)]))  k
        = get_member (Some (JObj [(js ''name'', JStr (js ''Laptop'')), (js ''price'', JNum (999::int))])) k)
       [''name'', ''description'', ''price'', ''category'', ''attributes'']
   \<and> createProductCard integer_engine
        (Some (JObj [(js ''product'', JObj [(js ''name'', JStr (js ''Laptop'')), (js ''price'', JNum 999),
                   (js ''rating'', JNum 4)])]))
     = createProductCard integer_engine
        (Some (JObj [(js ''product'', JObj [(js ''name'', JStr (js ''Laptop'')),
                   (js ''price'', JNum 999)])]))
   \<and> list_all (\<lambda>k. get_member (Some (JObj [(js ''name'', JStr (js ''Laptop'')), (js ''id'', JStr (js ''p1''))])) k
        = get_member (Some (JObj [(js ''name'', JStr (js ''Laptop'')) :: js_string \<times> int json])) k)
       [''name'', ''price'', ''description'', ''rating'', ''reviews_count'']
   \<and> product_markup integer_engine (JObj [(js ''name'', JStr (js ''Laptop'')), (js ''id'', JStr (js ''p1''))])
     = product_markup integer_engine (JObj [(js ''name'', JStr (js ''Laptop''))])
   \<and> get_member (Some (JObj [(js ''products'', JArr []), (js ''took_ms'', JNum 12)])) ''products''
     = get_member (Some (JObj [(js ''products'', JArr []) :: js_string \<times> int json])) ''products''
   \<and> performSearch_try integer_engine
        (Response True (js ''OK'') (Some (JObj [(js ''products'', JArr []), (js ''took_ms'', JNum 12)])))
        initial_dom
     = performSearch_try integer_engine
        (Response True (js ''OK'') (Some (JObj [(js ''products'', JArr [])]))) initial_dom"
proof -
  let ?p = "JObj [(js ''name'', JStr (js ''Laptop'')), (js ''price'', JNum 999),
                   (js ''rating'', JNum (4::int))]"
  let ?p' = "JObj [(js ''name'', JStr (js ''Laptop'')), (js ''price'', JNum (999::int))]"
  let ?q = "JObj [(js ''name'', JStr (js ''Laptop'')), (js ''id'', JStr (js ''p1'')) :: js_string \<times> int json]"
  let ?q' = "JObj [(js ''name'', JStr (js ''Laptop'')) :: js_string \<times> int json]"
  let ?d = "JObj [(js ''products'', JArr []), (js ''took_ms'', JNum (12::int))]"
  let ?d' = "JObj [(js ''products'', JArr []) :: js_string \<times> int json]"
  have a: "list_all (\<lambda>k. get_member (Some ?p) k = get_member (Some ?p') k)
       [''name'', ''description'', ''price'', ''category'', ''attributes'']"
    by (simp add: get_member_def js_simps)
  have b: "list_all (\<lambda>k. get_member (Some ?q) k = get_member (Some ?q') k)
       [''name'', ''price'', ''description'', ''rating'', ''reviews_count'']"
    by (simp add: get_member_def js_simps)
  have c: "get_member (Some ?d) ''products'' = get_member (Some ?d') ''products''"
    by (simp add: get_member_def js_simps)
  from a renderers_read_these_fields [where p = ?p and p' = ?p' and eng = integer_engine]
  have a': "createProductCard integer_engine (Some (JObj [(js ''product'', ?p)]))
     = createProductCard integer_engine (Some (JObj [(js ''product'', ?p')]))"
    by blast
  from b renderers_read_these_fields [where p = ?q and p' = ?q' and eng = integer_engine]
  have b': "product_markup integer_engine ?q = product_markup integer_engine ?q'"
    by blast
  from c renderers_read_these_fields [where data = ?d and data' = ?d' and eng = integer_engine
      and ok = True and statusText = "js ''OK''" and d = initial_dom]
  have c': "performSearch_try integer_engine (Response True (js ''OK'') (Some ?d)) initial_dom
     = performSearch_try integer_engine (Response True (js ''OK'') (Some ?d')) initial_dom"
    by blast
  from a a' b b' c c' show ?thesis by blast
qed

text \<open>
  C8 as stated fails for the markup of \<open>performSearch\<close>: two products with the same id,
  name, description, price, category and attributes, and different ratings, are rendered
  differently.
\<close>

theorem product_markup_reads_rating_counterexample:
  "list_all (\<lambda>k. get_member (Some (JObj [(js ''id'', JStr (js ''p1'')), (js ''name'', JStr (js ''Laptop'')),
                   (js ''price'', JNum 999), (js ''rating'', JNum 4)])) k
        = get_member (Some (JObj [(js ''id'', JStr (js ''p1'')), (js ''name'', JStr (js ''Laptop'')),
                   (js ''price'', JNum 999), (js ''rating'', JNum (2::int))])) k)
       [''id'', ''name'', ''description'', ''price'', ''category'', ''attributes'']
   \<and> product_markup integer_engine
        (JObj [(js ''id'', JStr (js ''p1'')), (js ''name'', JStr (js ''Laptop'')),
               (js ''price'', JNum 999), (js ''rating'', JNum 4)])
     \<noteq> product_markup integer_engine
        (JObj [(js ''id'', JStr (js ''p1'')), (js ''name'', JStr (js ''Laptop'')),
               (js ''price'', JNum 999), (js ''rating'', JNum 2)])"
  by (simp add: product_markup_def rating_markup_def repeat_def get_member_def and_then_def
      integer_engine_def js_simps eval_nat_numeral)


section \<open>getUserId\<close>

text \<open>
  C10 (as amended). When no \<open>userId\<close> is stored, or the stored value is the empty string,
  \<open>getUserId\<close> generates \<open>user_\<close> followed by at most 9 characters of
  \<open>Math.random().toString(36)\<close>, base-36 digits all of them, and stores it. When a
  non-empty \<open>userId\<close> is stored it returns the stored value and leaves the storage as it
  is. In every case a second call returns what the first returned and leaves the storage as
  the first call left it.
\<close>

theorem getUserId_idempotent:
  "(ls (js ''userId'') = None \<or> ls (js ''userId'') = Some [] \<longrightarrow>
      getUserId rnd ls =
        (js ''user_'' @ substr rnd 2 9, ls(js ''userId'' \<mapsto> js ''user_'' @ substr rnd 2 9)))
   \<and> length (substr rnd 2 9) \<le> 9
   \<and> (random_base36 rnd \<longrightarrow> list_all is_base36_digit (substr rnd 2 9))
   \<and> (ls (js ''userId'') = Some u \<and> u \<noteq> [] \<longrightarrow> getUserId rnd ls = (u, ls))
   \<and> getUserId rnd' (snd (getUserId rnd ls)) = getUserId rnd ls"
proof -
  have gen: "ls (js ''userId'') = None \<or> ls (js ''userId'') = Some [] \<Longrightarrow>
      getUserId rnd ls =
        (js ''user_'' @ substr rnd 2 9, ls(js ''userId'' \<mapsto> js ''user_'' @ substr rnd 2 9))"
    by (auto simp: getUserId_def Let_def)
  have len: "length (substr rnd 2 9) \<le> 9"
    by (simp add: substr_def)
  have digits: "list_all is_base36_digit (substr rnd 2 9)" if "random_base36 rnd"
  proof -
    from that have "list_all is_base36_digit (drop 2 rnd)"
      by (auto simp: random_base36_def js_simps)
    then show ?thesis
      by (auto simp: substr_def list_all_iff dest: in_set_takeD)
  qed
  have kept: "ls (js ''userId'') = Some u \<and> u \<noteq> [] \<Longrightarrow> getUserId rnd ls = (u, ls)"
    by (auto simp: getUserId_def Let_def)
  have again: "getUserId rnd' (snd (getUserId rnd ls)) = getUserId rnd ls"
  proof (cases "ls (js ''userId'')")
    case None
    then show ?thesis by (simp add: getUserId_def Let_def js_simps)
  next
    case (Some v)
    then show ?thesis by (cases "v = []") (simp_all add: getUserId_def Let_def js_simps)
  qed
  from gen len digits kept again show ?thesis by blast
qed

theorem getUserId_idempotent_witness:
  "getUserId (js ''0.4fzyo82mvyr'') Map.empty
     = (js ''user_4fzyo82mv'', [js ''userId'' \<mapsto> js ''user_4fzyo82mv''])
   \<and> list_all is_base36_digit (substr (js ''0.4fzyo82mvyr'') 2 9)
   \<and> getUserId (js ''0.k1'') [js ''userId'' \<mapsto> js ''user_4fzyo82mv'']
     = (js ''user_4fzyo82mv'', [js ''userId'' \<mapsto> js ''user_4fzyo82mv''])"
  using getUserId_idempotent [of Map.empty "js ''0.4fzyo82mvyr''" "js ''user_4fzyo82mv''" "js ''0.k1''"]
    getUserId_idempotent [of "[js ''userId'' \<mapsto> js ''user_4fzyo82mv'']" "js ''0.k1''"
      "js ''user_4fzyo82mv''" "js ''0.k1''"]
  by (simp add: js_simps substr_def random_base36_def is_base36_digit_def)

text \<open>
  C10 as stated fails where the stored \<open>userId\<close> is the empty string: \<open>!userId\<close> holds,
  so the call does not return the stored value and it overwrites the storage.
\<close>

theorem getUserId_stored_empty_counterexample:
  "[js ''userId'' \<mapsto> []] (js ''userId'') = Some []
   \<and> getUserId (js ''0.4fzyo82mvyr'') [js ''userId'' \<mapsto> []] \<noteq> ([], [js ''userId'' \<mapsto> []])"
  by (simp add: getUserId_def Let_def js_simps)

end
